theory Spec2Isabelle
  imports Complex_Main "HOL-Library.AList"
begin

section \<open>FetchMocker: a shallow embedding of fetchMockServer.js\<close>

text \<open>
  The class \<^verbatim>\<open>FetchMocker\<close> keeps a registry of routes grouped by namespace, replaces
  the global \<^verbatim>\<open>fetch\<close> by a function that resolves every call against the registry,
  and records the calls. The instance's fields, the global \<^verbatim>\<open>fetch\<close> binding and the
  console output are one record that every method takes and returns. Strings are
  \<^typ>\<open>string\<close>, so the model covers ASCII text. What the JavaScript platform
  provides (\<^verbatim>\<open>URL\<close>, \<^verbatim>\<open>JSON.parse\<close>, \<^verbatim>\<open>URLSearchParams\<close>, the part of
  \<^verbatim>\<open>RegExp\<close> beyond the fragment modelled below, the \<^verbatim>\<open>Response\<close> constructor's
  argument checks and the original \<^verbatim>\<open>fetch\<close>) is a parameter of the model: a record of
  functions that the general theorems quantify over.
\<close>

subsection \<open>JavaScript values\<close>

text \<open>
  The values that reach the parameter matcher and the handlers. \<open>JInherited k\<close> is the
  member \<open>k\<close> that a plain object inherits from \<^verbatim>\<open>Object.prototype\<close>.
\<close>

datatype jsval =
    JUndefined
  | JNull
  | JBool bool
  | JNum rat
  | JStr string
  | JArr "jsval list"
  | JObj "(string \<times> jsval) list"
  | JInherited string

text \<open>
  \<^verbatim>\<open>a === b\<close> between a freshly decoded value and a constraint value: primitives
  compare by value, and an object or array is a fresh reference, equal to nothing else.
\<close>

fun strict_eq :: "jsval \<Rightarrow> jsval \<Rightarrow> bool" where
  "strict_eq JUndefined JUndefined = True"
| "strict_eq JNull JNull = True"
| "strict_eq (JBool a) (JBool b) = (a = b)"
| "strict_eq (JNum a) (JNum b) = (a = b)"
| "strict_eq (JStr a) (JStr b) = (a = b)"
| "strict_eq (JInherited a) (JInherited b) = (a = b)"
| "strict_eq _ _ = False"

text \<open>Failures that leave a function as a raised exception.\<close>

datatype exn = TypeError | SyntaxError

definition Object_prototype_keys :: "string list" where
  "Object_prototype_keys =
     [''constructor'', ''__defineGetter__'', ''__defineSetter__'', ''hasOwnProperty'',
      ''__lookupGetter__'', ''__lookupSetter__'', ''isPrototypeOf'',
      ''propertyIsEnumerable'', ''toString'', ''valueOf'', ''__proto__'',
      ''toLocaleString'']"

text \<open>\<^verbatim>\<open>acc[name] = value\<close> on a plain object, for a string \<open>value\<close>: the assignment to
  \<^verbatim>\<open>__proto__\<close> goes to the inherited setter, which ignores a string.\<close>

definition set_prop :: "(string \<times> jsval) list \<Rightarrow> string \<Rightarrow> jsval \<Rightarrow> (string \<times> jsval) list" where
  "set_prop acc name v = (if name = ''__proto__'' then acc else AList.update name v acc)"

text \<open>\<^verbatim>\<open>Object.fromEntries\<close> of string pairs: a later pair with the same key replaces
  the value.\<close>

definition fromEntries :: "(string \<times> string) list \<Rightarrow> jsval" where
  "fromEntries es = JObj (fold (\<lambda>(k, v) acc. AList.update k (JStr v) acc) es [])"

subsection \<open>Strings\<close>

definition toUpperCase :: "string \<Rightarrow> string" where
  "toUpperCase s =
     map (\<lambda>c. case map_of (zip ''abcdefghijklmnopqrstuvwxyz'' ''ABCDEFGHIJKLMNOPQRSTUVWXYZ'') c of
                 Some d \<Rightarrow> d | None \<Rightarrow> c) s"

definition toLowerCase :: "string \<Rightarrow> string" where
  "toLowerCase s =
     map (\<lambda>c. case map_of (zip ''ABCDEFGHIJKLMNOPQRSTUVWXYZ'' ''abcdefghijklmnopqrstuvwxyz'') c of
                 Some d \<Rightarrow> d | None \<Rightarrow> c) s"

fun startsWith :: "string \<Rightarrow> string \<Rightarrow> bool" where
  "startsWith s [] = True"
| "startsWith [] (c # cs) = False"
| "startsWith (x # xs) (c # cs) = (x = c \<and> startsWith xs cs)"

text \<open>\<^verbatim>\<open>s.includes(sub)\<close>: \<open>sub\<close> occurs in \<open>s\<close> as a substring.\<close>

fun str_includes :: "string \<Rightarrow> string \<Rightarrow> bool" where
  "str_includes [] sub = (sub = [])"
| "str_includes (x # xs) sub = (startsWith (x # xs) sub \<or> str_includes xs sub)"

text \<open>\<^verbatim>\<open>s.split(c)\<close> for a one-character separator.\<close>

fun split_on :: "char \<Rightarrow> string \<Rightarrow> string list" where
  "split_on c [] = [[]]"
| "split_on c (x # xs) =
     (if x = c then [] # split_on c xs
      else (case split_on c xs of [] \<Rightarrow> [[x]] | y # ys \<Rightarrow> (x # y) # ys))"

subsection \<open>Own property keys of a plain object\<close>

text \<open>
  \<^verbatim>\<open>Object.entries\<close> lists the keys that are array indices (the canonical decimal
  numerals below \<open>2^32 - 1\<close>) first, in ascending numeric order, and then the other
  keys in the order of their creation. An object is kept as the list of its own
  properties in creation order.
\<close>

definition is_digit :: "char \<Rightarrow> bool" where
  "is_digit c = (c \<in> set ''0123456789'')"

definition digits_value :: "string \<Rightarrow> int" where
  "digits_value s = foldl (\<lambda>n c. 10 * n + (of_char c - 48)) 0 s"

definition is_array_index :: "string \<Rightarrow> bool" where
  "is_array_index s =
     (s \<noteq> [] \<and> list_all is_digit s \<and> (length s = 1 \<or> hd s \<noteq> CHR ''0'') \<and>
      digits_value s < 4294967295)"

definition Object_entries :: "(string \<times> 'a) list \<Rightarrow> (string \<times> 'a) list" where
  "Object_entries obj =
     sort_key (\<lambda>e. digits_value (fst e)) (filter (\<lambda>e. is_array_index (fst e)) obj) @
     filter (\<lambda>e. \<not> is_array_index (fst e)) obj"

subsection \<open>Requests, responses and handlers\<close>

text \<open>The second argument of \<^verbatim>\<open>fetch\<close>: \<^verbatim>\<open>{ method, headers, body }\<close>, each optional;
  \<open>headers\<close> is a plain object of strings.\<close>

record call_options =
  init_method :: "string option"
  init_headers :: "(string \<times> string) list option"
  init_body :: "string option"

text \<open>The first argument of \<^verbatim>\<open>fetch\<close>: a string, or an object with a \<^verbatim>\<open>url\<close>.\<close>

datatype fetch_input = UrlString string | RequestObject string

text \<open>What the dispatcher reads of \<^verbatim>\<open>new URL(url)\<close>.\<close>

record url =
  hostname :: string
  pathname :: string
  searchParams :: "(string \<times> string) list"

text \<open>The argument of a handler: \<^verbatim>\<open>{ queryParams, bodyParams, params }\<close>.\<close>

record request_context =
  queryParams :: jsval
  bodyParams :: jsval
  params :: "(string \<times> jsval) list"

text \<open>The object a handler returns: \<^verbatim>\<open>{ response, status, headers }\<close>.\<close>

record descriptor =
  response :: jsval
  status :: "int option"
  headers :: "(string \<times> string) list option"

text \<open>A thrown value: one whose \<^verbatim>\<open>message\<close> can be read, or \<^verbatim>\<open>null\<close>/\<^verbatim>\<open>undefined\<close>.\<close>

datatype thrown = Thrown string | ThrownNullish

text \<open>A handler returns a descriptor, returns \<^verbatim>\<open>undefined\<close> (\<open>Returns None\<close>) or throws.\<close>

datatype handler_outcome = Returns "descriptor option" | Throws thrown

type_synonym handler = "request_context \<Rightarrow> handler_outcome"

text \<open>The body given to \<^verbatim>\<open>new Response\<close>: the payload as it is, or its
  \<^verbatim>\<open>JSON.stringify\<close>.\<close>

datatype resp_body = Raw jsval | Stringified jsval

record Response =
  resp_status :: int
  resp_headers :: "(string \<times> string) list"
  resp_body :: resp_body

text \<open>A stored route: \<^verbatim>\<open>{ handler, ...options }\<close> with the options
  \<^verbatim>\<open>queryParams\<close> and \<^verbatim>\<open>bodyParams\<close>, which \<^verbatim>\<open>routeRequest\<close> reads as
  \<^verbatim>\<open>expectedQueryParams\<close> and \<^verbatim>\<open>expectedBodyParams\<close>.\<close>

record route =
  handler :: handler
  expectedQueryParams :: "(string \<times> jsval) list option"
  expectedBodyParams :: "(string \<times> jsval) list option"

text \<open>An entry of \<^verbatim>\<open>this.calls\<close>.\<close>

record call =
  call_url :: string
  call_method :: string
  call_options :: call_options

text \<open>The calls of \<^verbatim>\<open>this.logger\<close>, one constructor per message of the source.\<close>

datatype log_event =
    Warn_already_running
  | Log_started
  | Log_stopped
  | Log_restarted
  | Log_reset
  | Log_namespace_created string
  | Warn_route_exists string string string
  | Log_route_added string string string
  | Log_fetch_called string string
  | Warn_no_route string string
  | Error_parsing_body string
  | Log_route_matched string string
  | Log_handler_executed int
  | Error_executing_handler string

subsection \<open>The platform\<close>

text \<open>
  \<^item> \<open>new_URL\<close>: \<^verbatim>\<open>new URL(url)\<close>; \<open>None\<close> when it throws its \<^verbatim>\<open>TypeError\<close>.
  \<^item> \<open>JSON_parse\<close>: \<open>Inl\<close> the message of the \<^verbatim>\<open>SyntaxError\<close> it throws.
  \<^item> \<open>URLSearchParams\<close>: the pairs of \<^verbatim>\<open>new URLSearchParams(text)\<close>.
  \<^item> \<open>RegExp_match\<close>: \<^verbatim>\<open>text.match(new RegExp(source))\<close> for a source outside the
    fragment of \<open>rx_tokens\<close> below: \<open>Inl\<close> when the constructor throws, \<open>Inr None\<close> for
    \<^verbatim>\<open>null\<close>, else the captures.
  \<^item> \<open>get_primitive\<close>: \<^verbatim>\<open>v[key]\<close> for a number, boolean, string or array \<open>v\<close>.
  \<^item> \<open>Response_rejects\<close>: the message of the error that \<^verbatim>\<open>new Response(body, { status,
    headers: new Headers(headers) })\<close> throws, if it throws.
  \<^item> \<open>destructure_message\<close>: the message of the \<^verbatim>\<open>TypeError\<close> that destructuring
    \<^verbatim>\<open>undefined\<close> raises.
  \<^item> \<open>originalFetch\<close>: the \<^verbatim>\<open>fetch\<close> that the constructor saved.
\<close>

record platform =
  new_URL :: "string \<Rightarrow> url option"
  JSON_parse :: "string \<Rightarrow> string + jsval"
  URLSearchParams :: "string \<Rightarrow> (string \<times> string) list"
  RegExp_match :: "string \<Rightarrow> string \<Rightarrow> exn + jsval list option"
  get_primitive :: "jsval \<Rightarrow> string \<Rightarrow> jsval"
  Response_rejects :: "resp_body \<Rightarrow> int \<Rightarrow> (string \<times> string) list \<Rightarrow> string option"
  destructure_message :: string
  originalFetch :: "fetch_input \<Rightarrow> call_options \<Rightarrow> exn + Response"

text \<open>\<^verbatim>\<open>params[key]\<close>.\<close>

definition get_prop :: "platform \<Rightarrow> jsval \<Rightarrow> string \<Rightarrow> exn + jsval" where
  "get_prop P v key =
     (case v of
        JUndefined \<Rightarrow> Inl TypeError
      | JNull \<Rightarrow> Inl TypeError
      | JObj ps \<Rightarrow>
          Inr (case map_of ps key of
                 Some x \<Rightarrow> x
               | None \<Rightarrow> if key \<in> set Object_prototype_keys then JInherited key else JUndefined)
      | _ \<Rightarrow> Inr (get_primitive P v key))"

subsection \<open>The state\<close>

text \<open>Which function the global \<^verbatim>\<open>fetch\<close> is bound to.\<close>

datatype fetch_binding = Original_fetch | Mock_fetch

text \<open>
  \<open>namespaces\<close> is the plain object \<^verbatim>\<open>this.namespaces\<close> (own properties in creation
  order); the value of a namespace is a \<^verbatim>\<open>Map\<close> from route key to route, kept in
  insertion order.
\<close>

record state =
  namespaces :: "(string \<times> (string \<times> route) list) list"
  calls :: "call list"
  isServerRunning :: bool
  global_fetch :: fetch_binding
  console :: "log_event list"

definition logger :: "log_event \<Rightarrow> state \<Rightarrow> state" where
  "logger e st = st\<lparr>console := console st @ [e]\<rparr>"

text \<open>The state the constructor leaves.\<close>

definition constructor :: state where
  "constructor = \<lparr>namespaces = [], calls = [], isServerRunning = False,
     global_fetch = Original_fetch, console = []\<rparr>"

definition start :: "state \<Rightarrow> state" where
  "start st =
     (if isServerRunning st then logger Warn_already_running st
      else logger Log_started (st\<lparr>global_fetch := Mock_fetch, isServerRunning := True\<rparr>))"

definition reset :: "state \<Rightarrow> state" where
  "reset st =
     logger Log_reset
       (st\<lparr>namespaces := [], calls := [], global_fetch := Original_fetch,
           isServerRunning := False\<rparr>)"

definition stop :: "state \<Rightarrow> state" where
  "stop st = logger Log_stopped (reset st)"

definition restart :: "state \<Rightarrow> state" where
  "restart st = logger Log_restarted (start (stop st))"

text \<open>
  \<^verbatim>\<open>namespace(name)\<close>: \<^verbatim>\<open>this.namespaces[name]\<close> is falsy only when \<open>name\<close> is neither
  an own property nor a member of \<^verbatim>\<open>Object.prototype\<close>. The returned object's
  \<^verbatim>\<open>get\<close>, \<^verbatim>\<open>post\<close>, \<^verbatim>\<open>put\<close> and \<^verbatim>\<open>delete\<close> are \<open>addRoute name\<close> at the four methods
  below.
\<close>

definition namespace :: "string \<Rightarrow> state \<Rightarrow> state" where
  "namespace name st =
     (if map_of (namespaces st) name = None \<and> name \<notin> set Object_prototype_keys
      then logger (Log_namespace_created name)
             (st\<lparr>namespaces := AList.update name [] (namespaces st)\<rparr>)
      else st)"

definition routeKey_of :: "string \<Rightarrow> string \<Rightarrow> string" where
  "routeKey_of method path = method @ '' '' @ path"

text \<open>
  \<^verbatim>\<open>addRoute\<close>: \<^verbatim>\<open>this.namespaces[namespace].has\<close> is a function only when the namespace
  is an own property; on \<^verbatim>\<open>undefined\<close> and on an inherited member the call raises.
\<close>

definition addRoute ::
  "string \<Rightarrow> string \<Rightarrow> string \<Rightarrow> handler \<Rightarrow> (string \<times> jsval) list option \<Rightarrow>
   (string \<times> jsval) list option \<Rightarrow> state \<Rightarrow> exn + state" where
  "addRoute ns method path h expQuery expBody st =
     (let routeKey = routeKey_of method path in
      case map_of (namespaces st) ns of
        None \<Rightarrow> Inl TypeError
      | Some routes \<Rightarrow>
          if routeKey \<in> fst ` set routes then Inr (logger (Warn_route_exists method path ns) st)
          else Inr (logger (Log_route_added method ns path)
                 (st\<lparr>namespaces :=
                      AList.update ns
                        (AList.update routeKey
                           \<lparr>handler = h, expectedQueryParams = expQuery,
                            expectedBodyParams = expBody\<rparr> routes)
                        (namespaces st)\<rparr>)))"

definition ns_get ::
  "string \<Rightarrow> string \<Rightarrow> handler \<Rightarrow> (string \<times> jsval) list option \<Rightarrow>
   (string \<times> jsval) list option \<Rightarrow> state \<Rightarrow> exn + state" where
  "ns_get name = addRoute name ''GET''"

definition ns_post ::
  "string \<Rightarrow> string \<Rightarrow> handler \<Rightarrow> (string \<times> jsval) list option \<Rightarrow>
   (string \<times> jsval) list option \<Rightarrow> state \<Rightarrow> exn + state" where
  "ns_post name = addRoute name ''POST''"

definition ns_put ::
  "string \<Rightarrow> string \<Rightarrow> handler \<Rightarrow> (string \<times> jsval) list option \<Rightarrow>
   (string \<times> jsval) list option \<Rightarrow> state \<Rightarrow> exn + state" where
  "ns_put name = addRoute name ''PUT''"

definition ns_delete ::
  "string \<Rightarrow> string \<Rightarrow> handler \<Rightarrow> (string \<times> jsval) list option \<Rightarrow>
   (string \<times> jsval) list option \<Rightarrow> state \<Rightarrow> exn + state" where
  "ns_delete name = addRoute name ''DELETE''"

subsection \<open>matchPath\<close>

text \<open>
  \<^verbatim>\<open>routePath.replace(/:([^/]+)/g, ...)\<close>: every colon that is followed by at least one
  character other than \<open>/\<close> starts a parameter, whose name runs up to the next \<open>/\<close>;
  the name is pushed and the text is replaced by the group \<^verbatim>\<open>([^/]+)\<close>. The result is
  the source of the regular expression and the list \<^verbatim>\<open>paramNames\<close>.
\<close>

function replace_params :: "string \<Rightarrow> string \<times> string list" where
  "replace_params [] = ([], [])"
| "replace_params (c # cs) =
     (if c = CHR '':'' \<and> takeWhile (\<lambda>x. x \<noteq> CHR ''/'') cs \<noteq> []
      then (case replace_params (dropWhile (\<lambda>x. x \<noteq> CHR ''/'') cs) of
              (r, names) \<Rightarrow> (''([^/]+)'' @ r, takeWhile (\<lambda>x. x \<noteq> CHR ''/'') cs # names))
      else (case replace_params cs of (r, names) \<Rightarrow> (c # r, names)))"
  by pat_completeness auto
termination
  by (relation "measure length") (auto simp: less_Suc_eq_le length_dropWhile_le)

text \<open>
  The fragment of regular expressions that is modelled here: a sequence of literal
  characters, of \<open>.\<close> and of the group \<^verbatim>\<open>([^/]+)\<close>. A source with any other use of a
  metacharacter is outside the fragment (\<open>rx_tokens\<close> is \<open>None\<close>) and is left to the
  platform.
\<close>

datatype rx_tok = Lit char | AnyChar | Group

definition rx_meta :: string where
  "rx_meta = ''^$.*+?()[]{}|'' @ [CHR 0x5C]"

function rx_tokens :: "string \<Rightarrow> rx_tok list option" where
  "rx_tokens [] = Some []"
| "rx_tokens (c # cs) =
     (if startsWith (c # cs) ''([^/]+)'' then map_option (Cons Group) (rx_tokens (drop 6 cs))
      else if c = CHR ''.'' then map_option (Cons AnyChar) (rx_tokens cs)
      else if c \<in> set rx_meta then None
      else map_option (Cons (Lit c)) (rx_tokens cs))"
  by pat_completeness auto
termination
  by (relation "measure length") auto

fun first_some :: "'a option list \<Rightarrow> 'a option" where
  "first_some [] = None"
| "first_some (Some x # xs) = Some x"
| "first_some (None # xs) = first_some xs"

text \<open>
  Matching the whole text (the source is wrapped in \<^verbatim>\<open>^\<close> and \<^verbatim>\<open>$\<close>), by
  backtracking: a group takes the longest run of characters other than \<open>/\<close> first and
  gives characters back one at a time. The result is the list of the captures.
\<close>

fun rx_match :: "rx_tok list \<Rightarrow> string \<Rightarrow> string list option" where
  "rx_match [] s = (if s = [] then Some [] else None)"
| "rx_match (Lit c # ts) s =
     (case s of [] \<Rightarrow> None | x # xs \<Rightarrow> if x = c then rx_match ts xs else None)"
| "rx_match (AnyChar # ts) s =
     (case s of [] \<Rightarrow> None
      | x # xs \<Rightarrow> if x = CHR 0x0A \<or> x = CHR 0x0D then None else rx_match ts xs)"
| "rx_match (Group # ts) s =
     first_some
       (map (\<lambda>n. map_option (Cons (take n s)) (rx_match ts (drop n s)))
          (rev [1..<Suc (length (takeWhile (\<lambda>x. x \<noteq> CHR ''/'') s))]))"

text \<open>\<^verbatim>\<open>urlPath.match(new RegExp(`^${regexPath}$`))\<close>: \<open>Inl\<close> when the constructor throws,
  \<open>Inr None\<close> for \<^verbatim>\<open>null\<close>, else \<^verbatim>\<open>match[1]\<close>, \<^verbatim>\<open>match[2]\<close>, ...\<close>

definition RegExp_exec :: "platform \<Rightarrow> string \<Rightarrow> string \<Rightarrow> exn + jsval list option" where
  "RegExp_exec P regexPath urlPath =
     (case rx_tokens regexPath of
        Some ts \<Rightarrow> Inr (map_option (map JStr) (rx_match ts urlPath))
      | None \<Rightarrow> RegExp_match P (''^'' @ regexPath @ ''$'') urlPath)"

text \<open>\<^verbatim>\<open>paramNames.reduce((acc, name, index) => { acc[name] = match[index + 1]; return acc;
  }, {})\<close>; a capture that is missing reads as \<^verbatim>\<open>undefined\<close>.\<close>

fun reduce_params ::
  "(string \<times> jsval) list \<Rightarrow> string list \<Rightarrow> jsval list \<Rightarrow> (string \<times> jsval) list" where
  "reduce_params acc [] caps = acc"
| "reduce_params acc (name # names) caps =
     reduce_params (set_prop acc name (case caps of [] \<Rightarrow> JUndefined | c # _ \<Rightarrow> c)) names
       (drop 1 caps)"

text \<open>\<open>Inr None\<close> is the result \<^verbatim>\<open>false\<close>, \<open>Inr (Some ps)\<close> the result
  \<^verbatim>\<open>{ params }\<close>.\<close>

definition matchPath ::
  "platform \<Rightarrow> string \<Rightarrow> string \<Rightarrow> exn + (string \<times> jsval) list option" where
  "matchPath P urlPath routePath =
     (case replace_params routePath of
        (regexPath, paramNames) \<Rightarrow>
          (case RegExp_exec P regexPath urlPath of
             Inl e \<Rightarrow> Inl e
           | Inr None \<Rightarrow> Inr None
           | Inr (Some caps) \<Rightarrow> Inr (Some (reduce_params [] paramNames caps))))"

subsection \<open>matchParams\<close>

text \<open>\<^verbatim>\<open>Object.entries(expectedParams).every(([key, value]) => params[key] === value)\<close>\<close>

fun every_param :: "platform \<Rightarrow> jsval \<Rightarrow> (string \<times> jsval) list \<Rightarrow> exn + bool" where
  "every_param P ps [] = Inr True"
| "every_param P ps ((key, v) # es) =
     (case get_prop P ps key of
        Inl e \<Rightarrow> Inl e
      | Inr x \<Rightarrow> if strict_eq x v then every_param P ps es else Inr False)"

definition matchParams ::
  "platform \<Rightarrow> jsval \<Rightarrow> (string \<times> jsval) list option \<Rightarrow> exn + bool" where
  "matchParams P ps expectedParams =
     (case expectedParams of None \<Rightarrow> Inr True | Some es \<Rightarrow> every_param P ps es)"

subsection \<open>executeHandler\<close>

definition truthy :: "string option \<Rightarrow> bool" where
  "truthy v = (case v of None \<Rightarrow> False | Some s \<Rightarrow> s \<noteq> [])"

definition server_error :: Response where
  "server_error = \<lparr>resp_status = 500, resp_headers = [], resp_body = Raw (JStr ''Server Error'')\<rparr>"

definition not_found :: Response where
  "not_found = \<lparr>resp_status = 404, resp_headers = [], resp_body = Raw (JStr ''Not Found'')\<rparr>"

text \<open>The \<^verbatim>\<open>catch\<close> block of \<^verbatim>\<open>executeHandler\<close>: reading \<^verbatim>\<open>error.message\<close> of
  \<^verbatim>\<open>null\<close> or \<^verbatim>\<open>undefined\<close> raises in its turn.\<close>

definition handler_catch :: "log_event list \<Rightarrow> thrown \<Rightarrow> log_event list \<times> (exn + Response)" where
  "handler_catch logs t =
     (case t of
        ThrownNullish \<Rightarrow> (logs, Inl TypeError)
      | Thrown msg \<Rightarrow> (logs @ [Error_executing_handler msg], Inr server_error))"

definition executeHandler ::
  "platform \<Rightarrow> handler \<Rightarrow> request_context \<Rightarrow> log_event list \<times> (exn + Response)" where
  "executeHandler P h ctx =
     (case h ctx of
        Throws t \<Rightarrow> handler_catch [] t
      | Returns None \<Rightarrow> handler_catch [] (Thrown (destructure_message P))
      | Returns (Some result) \<Rightarrow>
          (let st = (case status result of None \<Rightarrow> 200 | Some s \<Rightarrow> s);
               hs = (case headers result of None \<Rightarrow> [] | Some h \<Rightarrow> h);
               contentType =
                 (if truthy (map_of hs ''Content-Type'') then map_of hs ''Content-Type''
                  else map_of hs ''content-type'');
               body =
                 (case contentType of
                    None \<Rightarrow> Raw (response result)
                  | Some ct \<Rightarrow>
                      if ct \<noteq> [] \<and> str_includes ct ''application/json''
                      then Stringified (response result) else Raw (response result))
           in case Response_rejects P body st hs of
                Some msg \<Rightarrow> handler_catch [Log_handler_executed st] (Thrown msg)
              | None \<Rightarrow>
                  ([Log_handler_executed st],
                   Inr \<lparr>resp_status = st, resp_headers = hs, resp_body = body\<rparr>)))"

subsection \<open>routeRequest\<close>

text \<open>\<^verbatim>\<open>init.headers?.[key]?.toLowerCase()\<close>\<close>

definition header_lower :: "call_options \<Rightarrow> string \<Rightarrow> string option" where
  "header_lower init key =
     (case init_headers init of None \<Rightarrow> None | Some hs \<Rightarrow> map_option toLowerCase (map_of hs key))"

definition contentType_of :: "call_options \<Rightarrow> string option" where
  "contentType_of init =
     (if truthy (header_lower init ''Content-Type'') then header_lower init ''Content-Type''
      else header_lower init ''content-type'')"

text \<open>Lines 81 to 98 of \<^verbatim>\<open>routeRequest\<close>: the value of \<^verbatim>\<open>bodyParams\<close> and what the
  \<^verbatim>\<open>catch\<close> block logs.\<close>

definition decodeBody :: "platform \<Rightarrow> string \<Rightarrow> call_options \<Rightarrow> log_event list \<times> jsval" where
  "decodeBody P method init =
     (case init_body init of
        None \<Rightarrow> ([], JObj [])
      | Some body \<Rightarrow>
          if body \<noteq> [] \<and> (method = ''POST'' \<or> method = ''PUT'') then
            (case contentType_of init of
               None \<Rightarrow> ([], JObj [])
             | Some contentType \<Rightarrow>
                 if contentType \<noteq> [] then
                   (if str_includes contentType ''application/json'' then
                      (case JSON_parse P body of
                         Inr v \<Rightarrow> ([], v)
                       | Inl msg \<Rightarrow> ([Error_parsing_body msg], JObj []))
                    else if str_includes contentType ''application/x-www-form-urlencoded'' then
                      ([], fromEntries (URLSearchParams P body))
                    else if str_includes contentType ''text/plain'' then
                      ([], JObj [(''text'', JStr body)])
                    else ([], JObj []))
                 else ([], JObj []))
          else ([], JObj []))"

text \<open>
  The body of the inner loop, for one entry of the namespace's \<^verbatim>\<open>Map\<close>: \<open>None\<close> when
  the loop goes on, else what \<^verbatim>\<open>routeRequest\<close> logs and returns or raises. The path is
  matched before the methods are compared.
\<close>

definition tryRoute ::
  "platform \<Rightarrow> string \<Rightarrow> url \<Rightarrow> jsval \<Rightarrow> jsval \<Rightarrow> string \<Rightarrow> string \<times> route \<Rightarrow>
   (log_event list \<times> (exn + Response)) option" where
  "tryRoute P method urlObj qParams bParams ns entry =
     (case split_on CHR '' '' (fst entry) of
        routeMethod # routePath # _ \<Rightarrow>
          (case matchPath P (pathname urlObj) routePath of
             Inl e \<Rightarrow> Some ([], Inl e)
           | Inr None \<Rightarrow> None
           | Inr (Some ps) \<Rightarrow>
               if routeMethod = method then
                 (case matchParams P qParams (expectedQueryParams (snd entry)) of
                    Inl e \<Rightarrow> Some ([], Inl e)
                  | Inr False \<Rightarrow> None
                  | Inr True \<Rightarrow>
                      (case matchParams P bParams (expectedBodyParams (snd entry)) of
                         Inl e \<Rightarrow> Some ([], Inl e)
                       | Inr False \<Rightarrow> None
                       | Inr True \<Rightarrow>
                           (case executeHandler P (handler (snd entry))
                                   \<lparr>queryParams = qParams, bodyParams = bParams, params = ps\<rparr> of
                              (logs, r) \<Rightarrow> Some (Log_route_matched ns routePath # logs, r))))
               else None)
      | _ \<Rightarrow> Some ([], Inl TypeError))"

fun scanRoutes ::
  "platform \<Rightarrow> string \<Rightarrow> url \<Rightarrow> jsval \<Rightarrow> jsval \<Rightarrow> string \<Rightarrow> (string \<times> route) list \<Rightarrow>
   (log_event list \<times> (exn + Response)) option" where
  "scanRoutes P method urlObj qParams bParams ns [] = None"
| "scanRoutes P method urlObj qParams bParams ns (entry # routes) =
     (case tryRoute P method urlObj qParams bParams ns entry of
        Some r \<Rightarrow> Some r
      | None \<Rightarrow> scanRoutes P method urlObj qParams bParams ns routes)"

fun scanNamespaces ::
  "platform \<Rightarrow> string \<Rightarrow> url \<Rightarrow> jsval \<Rightarrow> jsval \<Rightarrow> (string \<times> (string \<times> route) list) list \<Rightarrow>
   (log_event list \<times> (exn + Response)) option" where
  "scanNamespaces P method urlObj qParams bParams [] = None"
| "scanNamespaces P method urlObj qParams bParams ((ns, routes) # rest) =
     (if str_includes (hostname urlObj) ns then
        (case scanRoutes P method urlObj qParams bParams ns routes of
           Some r \<Rightarrow> Some r
         | None \<Rightarrow> scanNamespaces P method urlObj qParams bParams rest)
      else scanNamespaces P method urlObj qParams bParams rest)"

definition log_all :: "log_event list \<Rightarrow> state \<Rightarrow> state" where
  "log_all es st = st\<lparr>console := console st @ es\<rparr>"

text \<open>\<open>Inr None\<close> is the result \<^verbatim>\<open>null\<close>.\<close>

definition routeRequest ::
  "platform \<Rightarrow> string \<Rightarrow> string \<Rightarrow> call_options \<Rightarrow> state \<Rightarrow> (exn + Response option) \<times> state" where
  "routeRequest P u method init st =
     (case new_URL P u of
        None \<Rightarrow> (Inl TypeError, st)
      | Some urlObj \<Rightarrow>
          (let qParams = fromEntries (searchParams urlObj);
               (dlogs, bParams) = decodeBody P method init
           in case scanNamespaces P method urlObj qParams bParams (Object_entries (namespaces st)) of
                None \<Rightarrow> (Inr None, log_all dlogs st)
              | Some (logs, Inl e) \<Rightarrow> (Inl e, log_all (dlogs @ logs) st)
              | Some (logs, Inr r) \<Rightarrow> (Inr (Some r), log_all (dlogs @ logs) st)))"

subsection \<open>The intercepting function and the global fetch\<close>

text \<open>\<^verbatim>\<open>typeof input === 'string' ? input : input.url\<close>\<close>

definition input_url :: "fetch_input \<Rightarrow> string" where
  "input_url input = (case input of UrlString s \<Rightarrow> s | RequestObject s \<Rightarrow> s)"

text \<open>\<^verbatim>\<open>(init.method || 'GET').toUpperCase()\<close>: the empty string is falsy.\<close>

definition request_method :: "call_options \<Rightarrow> string" where
  "request_method init =
     toUpperCase (case init_method init of None \<Rightarrow> ''GET'' | Some m \<Rightarrow> if m = [] then ''GET'' else m)"

text \<open>The function that \<^verbatim>\<open>overrideFetch\<close> installs as \<^verbatim>\<open>global.fetch\<close>.\<close>

definition mock_fetch ::
  "platform \<Rightarrow> fetch_input \<Rightarrow> call_options \<Rightarrow> state \<Rightarrow> (exn + Response) \<times> state" where
  "mock_fetch P input init st =
     (let u = input_url input;
          method = request_method init;
          st1 = logger (Log_fetch_called method u)
            (st\<lparr>calls := calls st @ [\<lparr>call_url = u, call_method = method, call_options = init\<rparr>]\<rparr>)
      in case routeRequest P u method init st1 of
           (Inl e, st2) \<Rightarrow> (Inl e, st2)
         | (Inr (Some r), st2) \<Rightarrow> (Inr r, st2)
         | (Inr None, st2) \<Rightarrow> (Inr not_found, logger (Warn_no_route method u) st2))"

text \<open>A call of the global \<^verbatim>\<open>fetch\<close>, whatever it is bound to.\<close>

definition fetch ::
  "platform \<Rightarrow> fetch_input \<Rightarrow> call_options \<Rightarrow> state \<Rightarrow> (exn + Response) \<times> state" where
  "fetch P input init st =
     (case global_fetch st of
        Original_fetch \<Rightarrow> (originalFetch P input init, st)
      | Mock_fetch \<Rightarrow> mock_fetch P input init st)"

definition getCalls :: "string option \<Rightarrow> state \<Rightarrow> call list" where
  "getCalls u st =
     (case u of
        None \<Rightarrow> calls st
      | Some v \<Rightarrow> if v = [] then calls st else filter (\<lambda>c. call_url c = v) (calls st))"

subsection \<open>A sample platform\<close>

text \<open>
  A concrete platform, on which the examples below are evaluated. It answers as the
  JavaScript platform does on the inputs of those examples:
  \<^item> \<open>sample_new_URL\<close> on a text \<^verbatim>\<open>scheme://host/path?query#fragment\<close> whose host is an
    ASCII name without port or user information and whose path and query need no
    escaping or normalisation, and on a text without a scheme (no URL: \<open>None\<close>);
  \<^item> \<open>sample_URLSearchParams\<close> on a text without \<^verbatim>\<open>%\<close>, \<^verbatim>\<open>+\<close> and a leading \<^verbatim>\<open>?\<close>;
  \<^item> \<open>sample_JSON_parse\<close> on JSON text whose strings have no escapes and whose numbers
    are integers, and on text that is not JSON.
\<close>

definition is_alpha :: "char \<Rightarrow> bool" where
  "is_alpha c = (c \<in> set ''abcdefghijklmnopqrstuvwxyzABCDEFGHIJKLMNOPQRSTUVWXYZ'')"

definition sample_URLSearchParams :: "string \<Rightarrow> (string \<times> string) list" where
  "sample_URLSearchParams q =
     map (\<lambda>p. (takeWhile (\<lambda>c. c \<noteq> CHR ''='') p, drop 1 (dropWhile (\<lambda>c. c \<noteq> CHR ''='') p)))
       (filter (\<lambda>p. p \<noteq> []) (split_on CHR ''&'' q))"

definition sample_new_URL :: "string \<Rightarrow> url option" where
  "sample_new_URL s =
     (let scheme = takeWhile (\<lambda>c. c \<noteq> CHR '':'') s;
          rest = dropWhile (\<lambda>c. c \<noteq> CHR '':'') s;
          auth = drop 3 rest;
          host = takeWhile (\<lambda>c. c \<notin> set ''/?#'') auth;
          r1 = dropWhile (\<lambda>c. c \<notin> set ''/?#'') auth;
          path = takeWhile (\<lambda>c. c \<notin> set ''?#'') r1;
          r2 = dropWhile (\<lambda>c. c \<notin> set ''?#'') r1;
          query = (if startsWith r2 ''?'' then takeWhile (\<lambda>c. c \<noteq> CHR ''#'') (drop 1 r2) else [])
      in if scheme = [] \<or> \<not> is_alpha (hd scheme) \<or>
            \<not> list_all (\<lambda>c. is_alpha c \<or> is_digit c \<or> c \<in> set ''+-.'') scheme \<or>
            \<not> startsWith rest ''://'' \<or> host = []
         then None
         else Some \<lparr>hostname = toLowerCase host,
                    pathname = (if path = [] then ''/'' else path),
                    searchParams = sample_URLSearchParams query\<rparr>)"

definition is_ws :: "char \<Rightarrow> bool" where
  "is_ws c = (c = CHR '' '' \<or> c = CHR 0x09 \<or> c = CHR 0x0A \<or> c = CHR 0x0D)"

fun json_string :: "string \<Rightarrow> (string \<times> string) option" where
  "json_string [] = None"
| "json_string (c # cs) =
     (if c = CHR 0x22 then Some ([], cs)
      else if c = CHR 0x5C \<or> (of_char c :: nat) < 32 then None
      else map_option (\<lambda>(s, r). (c # s, r)) (json_string cs))"

definition json_number :: "string \<Rightarrow> (jsval \<times> string) option" where
  "json_number s =
     (let neg = startsWith s ''-'';
          t = (if neg then drop 1 s else s);
          ds = takeWhile is_digit t;
          r = dropWhile is_digit t
      in if ds = [] \<or> (1 < length ds \<and> hd ds = CHR ''0'') \<or> startsWith r ''.'' \<or>
            startsWith r ''e'' \<or> startsWith r ''E''
         then None
         else Some (JNum (if neg then - of_int (digits_value ds) else of_int (digits_value ds)), r))"

text \<open>The parsers take fuel, which \<open>sample_JSON_parse\<close> sets to the length of the text:
  every call consumes a character before it calls again.\<close>

fun json_value :: "nat \<Rightarrow> string \<Rightarrow> (jsval \<times> string) option"
  and json_elements :: "nat \<Rightarrow> string \<Rightarrow> (jsval list \<times> string) option"
  and json_members :: "nat \<Rightarrow> string \<Rightarrow> ((string \<times> jsval) list \<times> string) option" where
  "json_value 0 s = None"
| "json_value (Suc n) s =
     (case dropWhile is_ws s of
        [] \<Rightarrow> None
      | c # cs \<Rightarrow>
          if c = CHR 0x22 then map_option (\<lambda>(x, r). (JStr x, r)) (json_string cs)
          else if c = CHR ''['' then
            (case dropWhile is_ws cs of
               [] \<Rightarrow> None
             | d # ds \<Rightarrow>
                 if d = CHR '']'' then Some (JArr [], ds)
                 else map_option (\<lambda>(xs, r). (JArr xs, r)) (json_elements n (d # ds)))
          else if c = CHR ''{'' then
            (case dropWhile is_ws cs of
               [] \<Rightarrow> None
             | d # ds \<Rightarrow>
                 if d = CHR ''}'' then Some (JObj [], ds)
                 else map_option
                        (\<lambda>(ms, r). (JObj (fold (\<lambda>(k, v) acc. AList.update k v acc) ms []), r))
                        (json_members n (d # ds)))
          else if startsWith (c # cs) ''null'' then Some (JNull, drop 3 cs)
          else if startsWith (c # cs) ''true'' then Some (JBool True, drop 3 cs)
          else if startsWith (c # cs) ''false'' then Some (JBool False, drop 4 cs)
          else json_number (c # cs))"
| "json_elements 0 s = None"
| "json_elements (Suc n) s =
     (case json_value n s of
        None \<Rightarrow> None
      | Some (v, r) \<Rightarrow>
          (case dropWhile is_ws r of
             [] \<Rightarrow> None
           | c # cs \<Rightarrow>
               if c = CHR '']'' then Some ([v], cs)
               else if c = CHR '','' then map_option (\<lambda>(vs, r'). (v # vs, r')) (json_elements n cs)
               else None))"
| "json_members 0 s = None"
| "json_members (Suc n) s =
     (case dropWhile is_ws s of
        [] \<Rightarrow> None
      | q # qs \<Rightarrow>
          if q \<noteq> CHR 0x22 then None
          else
            (case json_string qs of
               None \<Rightarrow> None
             | Some (k, r0) \<Rightarrow>
                 (case dropWhile is_ws r0 of
                    [] \<Rightarrow> None
                  | colon # r1 \<Rightarrow>
                      if colon \<noteq> CHR '':'' then None
                      else
                        (case json_value n r1 of
                           None \<Rightarrow> None
                         | Some (v, r) \<Rightarrow>
                             (case dropWhile is_ws r of
                                [] \<Rightarrow> None
                              | c # cs \<Rightarrow>
                                  if c = CHR ''}'' then Some ([(k, v)], cs)
                                  else if c = CHR '','' then
                                    map_option (\<lambda>(ms, r'). ((k, v) # ms, r')) (json_members n cs)
                                  else None)))))"

definition sample_JSON_parse :: "string \<Rightarrow> string + jsval" where
  "sample_JSON_parse s =
     (case json_value (Suc (length s)) s of
        None \<Rightarrow> Inl ''Unexpected token''
      | Some (v, r) \<Rightarrow> if dropWhile is_ws r = [] then Inr v else Inl ''Unexpected token'')"

text \<open>The checks of the \<^verbatim>\<open>Response\<close> constructor on the status: the range, and no
  body with a null-body status.\<close>

definition sample_Response_rejects ::
  "resp_body \<Rightarrow> int \<Rightarrow> (string \<times> string) list \<Rightarrow> string option" where
  "sample_Response_rejects body st hs =
     (if st < 200 \<or> 599 < st then Some ''status out of range''
      else if st \<in> {204, 205, 304} \<and> body \<noteq> Raw JUndefined \<and> body \<noteq> Raw JNull
      then Some ''null body status''
      else None)"

text \<open>The sample's \<open>RegExp_match\<close> stands for sources that do not compile, its
  \<open>originalFetch\<close> for a network that answers every call with 200.\<close>

definition live_response :: Response where
  "live_response = \<lparr>resp_status = 200, resp_headers = [], resp_body = Raw (JStr ''live'')\<rparr>"

definition sample_platform :: platform where
  "sample_platform =
     \<lparr>new_URL = sample_new_URL,
      JSON_parse = sample_JSON_parse,
      URLSearchParams = sample_URLSearchParams,
      RegExp_match = (\<lambda>src s. Inl SyntaxError),
      get_primitive = (\<lambda>v key. JUndefined),
      Response_rejects = sample_Response_rejects,
      destructure_message = ''Cannot destructure property of undefined'',
      originalFetch = (\<lambda>input init. Inr live_response)\<rparr>"

text \<open>Handlers and call options of the examples.\<close>

definition json_handler :: "jsval \<Rightarrow> int \<Rightarrow> handler" where
  "json_handler payload st =
     (\<lambda>ctx. Returns (Some \<lparr>response = payload, status = Some st,
        headers = Some [(''Content-Type'', ''application/json'')]\<rparr>))"

definition no_options :: call_options where
  "no_options = \<lparr>init_method = None, init_headers = None, init_body = None\<rparr>"

subsection \<open>The selection rule of the specification\<close>






subsection \<open>Patterns by segments\<close>

text \<open>
  The segments of a path or pattern are the pieces between its slashes
  (\<^verbatim>\<open>s.split('/')\<close>), and \<open>join_slash\<close> puts them together again. A parameter segment
  is a colon followed by a name. A literal segment has no colon and no metacharacter
  of regular expressions. A simple pattern is made of such segments.
\<close>

fun join_slash :: "string list \<Rightarrow> string" where
  "join_slash [] = []"
| "join_slash [s] = s"
| "join_slash (s # t # ts) = s @ CHR ''/'' # join_slash (t # ts)"

definition is_param_seg :: "string \<Rightarrow> bool" where
  "is_param_seg s = (case s of [] \<Rightarrow> False | c # name \<Rightarrow> c = CHR '':'' \<and> name \<noteq> [])"

definition is_literal_seg :: "string \<Rightarrow> bool" where
  "is_literal_seg s = (\<forall>c \<in> set s. c \<noteq> CHR '':'' \<and> c \<notin> set rx_meta)"

definition simple_pattern :: "string \<Rightarrow> bool" where
  "simple_pattern p = (\<forall>s \<in> set (split_on CHR ''/'' p). is_param_seg s \<or> is_literal_seg s)"

definition param_names :: "string list \<Rightarrow> string list" where
  "param_names segs = map (drop 1) (filter is_param_seg segs)"

text \<open>The source of the regular expression and its tokens, segment by segment.\<close>

definition seg_source :: "string \<Rightarrow> string" where
  "seg_source s = (if is_param_seg s then ''([^/]+)'' else s)"

definition seg_toks :: "string \<Rightarrow> rx_tok list" where
  "seg_toks s = (if is_param_seg s then [Group] else map Lit s)"

fun segs_toks :: "string list \<Rightarrow> rx_tok list" where
  "segs_toks [] = []"
| "segs_toks [s] = seg_toks s"
| "segs_toks (s # t # ts) = seg_toks s @ Lit CHR ''/'' # segs_toks (t # ts)"

subsection \<open>Example states\<close>

definition users_handler :: handler where
  "users_handler = json_handler (JArr [JObj [(''id'', JNum 1), (''name'', JStr ''John Doe'')]]) 200"

definition users_response :: Response where
  "users_response = \<lparr>resp_status = 200, resp_headers = [(''Content-Type'', ''application/json'')],
     resp_body = Stringified (JArr [JObj [(''id'', JNum 1), (''name'', JStr ''John Doe'')]])\<rparr>"

text \<open>The state after \<^verbatim>\<open>namespace('api').get('/users', ...)\<close> on a new instance.\<close>

definition api_registered :: state where
  "api_registered =
     \<lparr>namespaces = [(''api'', [(''GET /users'',
         \<lparr>handler = users_handler, expectedQueryParams = None, expectedBodyParams = None\<rparr>)])],
      calls = [], isServerRunning = False, global_fetch = Original_fetch,
      console = [Log_namespace_created ''api'', Log_route_added ''GET'' ''api'' ''/users'']\<rparr>"

definition other_handler :: handler where
  "other_handler = json_handler (JStr ''second'') 201"

definition json_post :: "string \<Rightarrow> string \<Rightarrow> call_options" where
  "json_post key body =
     \<lparr>init_method = Some ''POST'', init_headers = Some [(key, ''application/json'')],
      init_body = Some body\<rparr>"

definition created_response :: Response where
  "created_response = \<lparr>resp_status = 201, resp_headers = [(''Content-Type'', ''application/json'')],
     resp_body = Stringified (JObj [(''success'', JBool True)])\<rparr>"

text \<open>The state after \<^verbatim>\<open>namespace('api').post('/users', ...)\<close> on a new instance,
  first without constraints and then with the body constraint \<^verbatim>\<open>{ role: 'admin' }\<close>.\<close>

definition post_registered :: "(string \<times> jsval) list option \<Rightarrow> state" where
  "post_registered expBody =
     \<lparr>namespaces = [(''api'', [(''POST /users'',
         \<lparr>handler = json_handler (JObj [(''success'', JBool True)]) 201,
          expectedQueryParams = None, expectedBodyParams = expBody\<rparr>)])],
      calls = [], isServerRunning = False, global_fetch = Original_fetch,
      console = [Log_namespace_created ''api'', Log_route_added ''POST'' ''api'' ''/users'']\<rparr>"

definition other_response :: Response where
  "other_response = \<lparr>resp_status = 201, resp_headers = [(''Content-Type'', ''application/json'')],
     resp_body = Stringified (JStr ''second'')\<rparr>"

text \<open>Two namespaces, \<open>api\<close> with \<^verbatim>\<open>GET /users\<close> and \<open>example\<close> without routes, and the same
  after \<^verbatim>\<open>namespace('example').get('/orders', ...)\<close>.\<close>

definition two_namespaces :: state where
  "two_namespaces =
     api_registered\<lparr>namespaces := namespaces api_registered @ [(''example'', [])],
       console := console api_registered @ [Log_namespace_created ''example'']\<rparr>"

definition two_namespaces_orders :: state where
  "two_namespaces_orders =
     two_namespaces\<lparr>namespaces := namespaces api_registered @
        [(''example'', [(''GET /orders'',
           \<lparr>handler = other_handler, expectedQueryParams = None, expectedBodyParams = None\<rparr>)])],
      console := console two_namespaces @ [Log_route_added ''GET'' ''example'' ''/orders'']\<rparr>"


text \<open>Namespace \<open>api\<close> with the routes \<^verbatim>\<open>GET /(\<close>, whose pattern is no regular expression,
  and \<^verbatim>\<open>GET /users\<close>.\<close>

definition broken_pattern :: state where
  "broken_pattern =
     \<lparr>namespaces =
        [(''api'', [(''GET /('', \<lparr>handler = other_handler, expectedQueryParams = None,
                       expectedBodyParams = None\<rparr>),
                   (''GET /users'', \<lparr>handler = users_handler, expectedQueryParams = None,
                       expectedBodyParams = None\<rparr>)])],
      calls = [], isServerRunning = False, global_fetch = Original_fetch,
      console = [Log_namespace_created ''api'', Log_route_added ''GET'' ''api'' ''/('',
                 Log_route_added ''GET'' ''api'' ''/users'']\<rparr>"




section \<open>Properties\<close>

subsection \<open>Auxiliary facts\<close>

lemma routeRequest_result_cong:
  "namespaces st = namespaces st' \<Longrightarrow>
   fst (routeRequest P u m init st) = fst (routeRequest P u m init st')"
  by (simp add: routeRequest_def Let_def split: option.splits prod.splits sum.splits)

lemma mock_fetch_result:
  "fst (mock_fetch P input init st) =
     (case fst (routeRequest P (input_url input) (request_method init) init st) of
        Inl e \<Rightarrow> Inl e
      | Inr None \<Rightarrow> Inr not_found
      | Inr (Some r) \<Rightarrow> Inr r)"
proof -
  define s1 where "s1 = logger (Log_fetch_called (request_method init) (input_url input))
     (st\<lparr>calls := calls st @ [\<lparr>call_url = input_url input, call_method = request_method init,
        call_options = init\<rparr>]\<rparr>)"
  have "namespaces s1 = namespaces st"
    by (simp add: s1_def logger_def)
  then have eq: "fst (routeRequest P (input_url input) (request_method init) init s1) =
      fst (routeRequest P (input_url input) (request_method init) init st)"
    by (rule routeRequest_result_cong)
  have "fst (mock_fetch P input init st) =
     (case fst (routeRequest P (input_url input) (request_method init) init s1) of
        Inl e \<Rightarrow> Inl e
      | Inr None \<Rightarrow> Inr not_found
      | Inr (Some r) \<Rightarrow> Inr r)"
    by (simp add: mock_fetch_def Let_def s1_def split: prod.splits sum.splits option.splits)
  then show ?thesis by (simp add: eq)
qed

lemma mock_fetch_result_cong:
  assumes "namespaces st = namespaces st'"
  shows "fst (mock_fetch P input init st) = fst (mock_fetch P input init st')"
  using routeRequest_result_cong [OF assms] by (simp add: mock_fetch_result)

lemma namespaces_start: "namespaces (start st) = namespaces st"
  by (simp add: start_def logger_def)




lemma api_users_matched:
  "fst (mock_fetch sample_platform (UrlString ''https://api.com/users'') no_options api_registered) = Inr users_response"
  by code_simp

subsection \<open>Lifecycle and registration\<close>



subsection \<open>Registration conflicts\<close>

lemma logger_fields:
  "namespaces (logger e st) = namespaces st" "calls (logger e st) = calls st"
  "isServerRunning (logger e st) = isServerRunning st" "global_fetch (logger e st) = global_fetch st"
  "console (logger e st) = console st @ [e]"
  by (simp_all add: logger_def)

lemma addRoute_fresh_stores:
  assumes "map_of (namespaces st) ns = Some routes"
      and "routeKey_of method path \<notin> fst ` set routes"
  shows "\<exists>st' routes'. addRoute ns method path h q b st = Inr st' \<and>
     map_of (namespaces st') ns = Some routes' \<and>
     map_of routes' (routeKey_of method path) =
       Some \<lparr>handler = h, expectedQueryParams = q, expectedBodyParams = b\<rparr>"
  using assms by (simp add: addRoute_def logger_def AList.update_conv')

text \<open>
  Claim C6. When the namespace already holds a route under the key of
  \<open>(method, path)\<close>, \<^verbatim>\<open>addRoute\<close> with that pair returns normally and changes nothing
  but the console, which receives the warning: the namespaces, and with them the routes
  of the namespace and the stored route with its handler, are the same, and every
  intercepted call is answered as before.
\<close>

theorem duplicate_registration_rejected:
  assumes "map_of (namespaces st) ns = Some routes"
      and "map_of routes (routeKey_of method path) = Some r"
  shows "\<exists>st'. addRoute ns method path h q b st = Inr st' \<and>
     st' = st\<lparr>console := console st @ [Warn_route_exists method path ns]\<rparr> \<and>
     namespaces st' = namespaces st \<and>
     map_of (namespaces st') ns = Some routes \<and>
     (\<forall>P input init. fst (mock_fetch P input init st') = fst (mock_fetch P input init st))"
proof -
  define st' where "st' = st\<lparr>console := console st @ [Warn_route_exists method path ns]\<rparr>"
  from assms(2) have "routeKey_of method path \<in> fst ` set routes"
    by (metis domI dom_map_of_conv_image_fst)
  with assms(1) have eq: "addRoute ns method path h q b st = Inr st'"
    by (simp add: addRoute_def logger_def st'_def)
  have ns: "namespaces st' = namespaces st"
    by (simp add: st'_def)
  have same: "fst (mock_fetch P input init st') = fst (mock_fetch P input init st)" for P input init
    using ns by (rule mock_fetch_result_cong)
  have "map_of (namespaces st') ns = Some routes"
    using ns assms(1) by simp
  with eq ns same st'_def
  have "addRoute ns method path h q b st = Inr st' \<and>
     st' = st\<lparr>console := console st @ [Warn_route_exists method path ns]\<rparr> \<and>
     namespaces st' = namespaces st \<and>
     map_of (namespaces st') ns = Some routes \<and>
     (\<forall>P input init. fst (mock_fetch P input init st') = fst (mock_fetch P input init st))"
    by (intro conjI allI)
  then show ?thesis by (rule exI)
qed

text \<open>A second \<^verbatim>\<open>get('/users', ...)\<close> in namespace \<open>api\<close> with another handler: the
  first handler still answers.\<close>

theorem duplicate_registration_witness:
  "map_of (namespaces api_registered) ''api'' = Some [(''GET /users'',
         \<lparr>handler = users_handler, expectedQueryParams = None, expectedBodyParams = None\<rparr>)] \<and>
   (\<exists>st'. ns_get ''api'' ''/users'' other_handler None None api_registered = Inr st' \<and>
      namespaces st' = namespaces api_registered \<and>
      console st' = console api_registered @ [Warn_route_exists ''GET'' ''/users'' ''api''] \<and>
      fst (mock_fetch sample_platform (UrlString ''https://api.com/users'') no_options st')
        = Inr users_response)"
proof -
  have a: "map_of (namespaces api_registered) ''api'' = Some [(''GET /users'',
         \<lparr>handler = users_handler, expectedQueryParams = None, expectedBodyParams = None\<rparr>)]"
    by (simp add: api_registered_def)
  have b: "map_of [(''GET /users'',
         \<lparr>handler = users_handler, expectedQueryParams = None, expectedBodyParams = None\<rparr>)]
         (routeKey_of ''GET'' ''/users'') = Some \<lparr>handler = users_handler, expectedQueryParams = None, expectedBodyParams = None\<rparr>"
    by (simp add: routeKey_of_def)
  from duplicate_registration_rejected [OF a b, of other_handler None None]
  obtain st' where
    1: "addRoute ''api'' ''GET'' ''/users'' other_handler None None api_registered = Inr st'" and
    2: "st' = api_registered\<lparr>console := console api_registered @ [Warn_route_exists ''GET'' ''/users'' ''api'']\<rparr>" and
    3: "namespaces st' = namespaces api_registered" and
    4: "\<forall>P input init. fst (mock_fetch P input init st') = fst (mock_fetch P input init api_registered)"
    by blast
  from 4 have 5: "fst (mock_fetch sample_platform (UrlString ''https://api.com/users'') no_options st')
        = Inr users_response"
    by (simp only: api_users_matched)
  from 2 have 6: "console st' = console api_registered @ [Warn_route_exists ''GET'' ''/users'' ''api'']"
    by simp
  from 1 have 7: "ns_get ''api'' ''/users'' other_handler None None api_registered = Inr st'"
    by (simp only: ns_get_def)
  from a 7 3 6 5 show ?thesis by blast
qed

subsection \<open>Reset\<close>

lemma routeRequest_no_namespaces:
  assumes "namespaces st = []" and "new_URL P u = Some urlObj"
  shows "fst (routeRequest P u m init st) = Inr None"
  using assms by (simp add: routeRequest_def Object_entries_def Let_def split: prod.splits)

lemma answered_url_parses:
  assumes "fst (mock_fetch P input init st) = Inr r"
  shows "new_URL P (input_url input) \<noteq> None"
proof
  assume "new_URL P (input_url input) = None"
  then have "fst (routeRequest P (input_url input) (request_method init) init st) = Inl TypeError"
    by (simp add: routeRequest_def)
  with assms show False by (simp add: mock_fetch_result)
qed

lemma reset_fields:
  "namespaces (reset st) = []" "calls (reset st) = []" "global_fetch (reset st) = Original_fetch"
  "isServerRunning (reset st) = False"
  "namespaces (stop st) = []" "calls (stop st) = []" "global_fetch (stop st) = Original_fetch"
  "isServerRunning (stop st) = False"
  by (simp_all add: reset_def stop_def logger_def)

text \<open>
  Claim C2, amended. After \<^verbatim>\<open>reset()\<close> or \<^verbatim>\<open>stop()\<close> there is no namespace left and the
  global fetch is the original one again, so a call of the global fetch is handed to the
  original fetch. When a request that was answered before is resolved by the
  intercepting function on the state after the reset (the function itself, or the global
  fetch once \<^verbatim>\<open>start()\<close> has run again, as in \<^verbatim>\<open>restart()\<close>), the answer is the 404
  response.
\<close>

theorem reset_clears_registry_and_restores_fetch:
  assumes "fst (mock_fetch P input init st) = Inr r"
  shows "namespaces (reset st) = [] \<and> namespaces (stop st) = [] \<and>
     fetch P input init (reset st) = (originalFetch P input init, reset st) \<and>
     fetch P input init (stop st) = (originalFetch P input init, stop st) \<and>
     fst (mock_fetch P input init (reset st)) = Inr not_found \<and>
     fst (mock_fetch P input init (stop st)) = Inr not_found \<and>
     fst (fetch P input init (start (reset st))) = Inr not_found \<and>
     fst (fetch P input init (restart st)) = Inr not_found"
proof -
  from answered_url_parses [OF assms]
  obtain urlObj where u: "new_URL P (input_url input) = Some urlObj" by blast
  have nf: "fst (mock_fetch P input init s) = Inr not_found" if "namespaces s = []" for s
    using routeRequest_no_namespaces [OF that u] by (simp add: mock_fetch_result)
  have s1: "global_fetch (start (reset st)) = Mock_fetch" "namespaces (start (reset st)) = []"
    by (simp_all add: start_def reset_def logger_def)
  have s2: "global_fetch (restart st) = Mock_fetch" "namespaces (restart st) = []"
    by (simp_all add: restart_def start_def stop_def reset_def logger_def)
  show ?thesis
    using nf [of "reset st"] nf [of "stop st"] nf [of "start (reset st)"] nf [of "restart st"] s1 s2
    by (simp add: reset_fields fetch_def)
qed

theorem reset_clears_registry_witness:
  "fst (mock_fetch sample_platform (UrlString ''https://api.com/users'') no_options api_registered) = Inr users_response \<and>
   namespaces (reset api_registered) = [] \<and>
   fst (mock_fetch sample_platform (UrlString ''https://api.com/users'') no_options (reset api_registered)) = Inr not_found \<and>
   fst (fetch sample_platform (UrlString ''https://api.com/users'') no_options (restart api_registered)) = Inr not_found"
  using reset_clears_registry_and_restores_fetch [OF api_users_matched] api_users_matched by simp

text \<open>
  Claim C2 as stated fails: the global fetch answers the registered request with the
  handler's response, and after \<^verbatim>\<open>reset()\<close> (or \<^verbatim>\<open>stop()\<close>) the same call is answered by
  the original fetch, here with the network's 200, not with a 404.
\<close>

theorem reset_then_fetch_is_original_counterexample:
  "fst (fetch sample_platform (UrlString ''https://api.com/users'') no_options (start api_registered))
     = Inr users_response \<and>
   fst (fetch sample_platform (UrlString ''https://api.com/users'') no_options
         (reset (snd (fetch sample_platform (UrlString ''https://api.com/users'') no_options (start api_registered)))))
     = Inr live_response \<and>
   fst (fetch sample_platform (UrlString ''https://api.com/users'') no_options
         (stop (snd (fetch sample_platform (UrlString ''https://api.com/users'') no_options (start api_registered)))))
     = Inr live_response \<and>
   live_response \<noteq> not_found \<and> resp_status live_response \<noteq> 404"
proof -
  have g: "global_fetch (start api_registered) = Mock_fetch"
    by (simp add: start_def api_registered_def logger_def)
  have "fst (mock_fetch sample_platform (UrlString ''https://api.com/users'') no_options (start api_registered))
      = Inr users_response"
    using mock_fetch_result_cong [OF namespaces_start] api_users_matched by simp
  then have a: "fst (fetch sample_platform (UrlString ''https://api.com/users'') no_options (start api_registered))
     = Inr users_response"
    using g by (simp add: fetch_def)
  have b: "fst (fetch sample_platform input init (reset s)) = Inr live_response" for input init s
    by (simp add: fetch_def reset_fields sample_platform_def)
  have c: "fst (fetch sample_platform input init (stop s)) = Inr live_response" for input init s
    by (simp add: fetch_def reset_fields sample_platform_def)
  show ?thesis
    using a b c by (simp add: live_response_def not_found_def)
qed

subsection \<open>The request method\<close>

lemma post_registered_built:
  "ns_post ''api'' ''/users'' (json_handler (JObj [(''success'', JBool True)]) 201) None expBody
     (namespace ''api'' constructor) = Inr (post_registered expBody)"
  by (simp add: ns_post_def addRoute_def namespace_def constructor_def logger_def
      Object_prototype_keys_def routeKey_of_def post_registered_def)








subsection \<open>Body decoding\<close>

lemma toLowerCase_Nil: "toLowerCase v = [] \<longleftrightarrow> v = []"
  by (simp add: toLowerCase_def)

lemma str_includes_Nil: "str_includes [] (c # cs) = False"
  by simp

lemma routeRequest_fst:
  "fst (routeRequest P u m init st) =
     (case new_URL P u of
        None \<Rightarrow> Inl TypeError
      | Some urlObj \<Rightarrow>
          (case scanNamespaces P m urlObj (fromEntries (searchParams urlObj))
                  (snd (decodeBody P m init)) (Object_entries (namespaces st)) of
             None \<Rightarrow> Inr None
           | Some (logs, Inl e) \<Rightarrow> Inl e
           | Some (logs, Inr r) \<Rightarrow> Inr (Some r)))"
  by (simp add: routeRequest_def Let_def split: option.splits prod.splits sum.splits)


text \<open>
  Claim C5, amended. The content kind is read under the key spelled \<open>Content-Type\<close>,
  or else under the key spelled \<open>content-type\<close>, and its value is compared in lower
  case: for a \<open>POST\<close> or \<open>PUT\<close> call with a non-empty body, a value that contains
  \<open>application/json\<close>, \<open>application/x-www-form-urlencoded\<close> or \<open>text/plain\<close> (tried in
  this order) selects the decoding of the body.
\<close>

theorem content_type_selects_decoding:
  assumes "method = ''POST'' \<or> method = ''PUT''"
      and "init_body init = Some body" and "body \<noteq> []"
      and "init_headers init = Some hs"
      and "(map_of hs ''Content-Type'' = Some v \<and> v \<noteq> []) \<or>
           ((map_of hs ''Content-Type'' = None \<or> map_of hs ''Content-Type'' = Some []) \<and>
            map_of hs ''content-type'' = Some v \<and> v \<noteq> [])"
  shows "decodeBody P method init =
     (if str_includes (toLowerCase v) ''application/json'' then
        (case JSON_parse P body of Inr x \<Rightarrow> ([], x) | Inl msg \<Rightarrow> ([Error_parsing_body msg], JObj []))
      else if str_includes (toLowerCase v) ''application/x-www-form-urlencoded'' then
        ([], fromEntries (URLSearchParams P body))
      else if str_includes (toLowerCase v) ''text/plain'' then ([], JObj [(''text'', JStr body)])
      else ([], JObj []))"
proof -
  from assms(4,5) have ct: "contentType_of init = Some (toLowerCase v)"
    by (auto simp: contentType_of_def header_lower_def truthy_def toLowerCase_Nil)
  from assms(5) have ne: "toLowerCase v \<noteq> []"
    by (auto simp: toLowerCase_Nil)
  show ?thesis
    using assms(1,2,3) ne unfolding decodeBody_def ct by auto
qed

text \<open>The key \<open>content-type\<close> with a value in mixed case selects the JSON decoding.\<close>

theorem content_type_selects_decoding_witness:
  "decodeBody sample_platform ''POST''
     \<lparr>init_method = Some ''POST'',
      init_headers = Some [(''content-type'', ''Application/JSON; charset=utf-8'')],
      init_body = Some ''{\"role\":\"admin\"}''\<rparr>
   = ([], JObj [(''role'', JStr ''admin'')])"
proof -
  define hs where "hs = [(''content-type'', ''Application/JSON; charset=utf-8'')]"
  define init where "init = \<lparr>init_method = Some ''POST'', init_headers = Some hs,
      init_body = Some ''{\"role\":\"admin\"}''\<rparr>"
  have 1: "''POST'' = ''POST'' \<or> ''POST'' = ''PUT''" by simp
  have 2: "init_body init = Some ''{\"role\":\"admin\"}''" by (simp add: init_def)
  have 3: "''{\"role\":\"admin\"}'' \<noteq> []" by simp
  have 4: "init_headers init = Some hs" by (simp add: init_def)
  have 5: "(map_of hs ''Content-Type'' = Some ''Application/JSON; charset=utf-8'' \<and>
              ''Application/JSON; charset=utf-8'' \<noteq> []) \<or>
           ((map_of hs ''Content-Type'' = None \<or> map_of hs ''Content-Type'' = Some []) \<and>
            map_of hs ''content-type'' = Some ''Application/JSON; charset=utf-8'' \<and>
            ''Application/JSON; charset=utf-8'' \<noteq> [])"
    by (simp add: hs_def)
  have 6: "str_includes (toLowerCase ''Application/JSON; charset=utf-8'') ''application/json''"
    by code_simp
  have 7: "JSON_parse sample_platform ''{\"role\":\"admin\"}'' = Inr (JObj [(''role'', JStr ''admin'')])"
    by code_simp
  from content_type_selects_decoding [OF 1 2 3 4 5, of sample_platform] 6 7
  have "decodeBody sample_platform ''POST'' init = ([], JObj [(''role'', JStr ''admin'')])"
    by simp
  then show ?thesis by (simp add: init_def hs_def)
qed

text \<open>
  Claim C5 as stated fails: under the key \<open>CONTENT-TYPE\<close> the JSON body is not decoded
  (the body parameters are empty), while under \<open>Content-Type\<close> it is; a route that
  constrains the body to \<^verbatim>\<open>{ role: 'admin' }\<close> answers the second call and not the first.
\<close>

theorem content_type_key_casing_counterexample:
  "decodeBody sample_platform ''POST'' (json_post ''CONTENT-TYPE'' ''{\"role\":\"admin\"}'') = ([], JObj []) \<and>
   decodeBody sample_platform ''POST'' (json_post ''Content-Type'' ''{\"role\":\"admin\"}'')
     = ([], JObj [(''role'', JStr ''admin'')]) \<and>
   fst (mock_fetch sample_platform (UrlString ''https://api.com/users'')
          (json_post ''Content-Type'' ''{\"role\":\"admin\"}'')
          (post_registered (Some [(''role'', JStr ''admin'')]))) = Inr created_response \<and>
   fst (mock_fetch sample_platform (UrlString ''https://api.com/users'')
          (json_post ''CONTENT-TYPE'' ''{\"role\":\"admin\"}'')
          (post_registered (Some [(''role'', JStr ''admin'')]))) = Inr not_found"
  by code_simp



subsection \<open>Namespaces and hosts\<close>

lemma scanNamespaces_delete:
  assumes "\<not> str_includes (hostname u) B"
  shows "scanNamespaces P m u q b es = scanNamespaces P m u q b (AList.delete B es)"
  using assms by (induction es) (auto split: option.splits)

lemma Object_entries_delete:
  "AList.delete B (Object_entries ns) = Object_entries (AList.delete B ns)"
proof -
  have c: "filter Q (filter R xs) = filter R (filter Q xs)" for Q R and xs :: "(string \<times> 'a) list"
    by (induction xs) auto
  have d: "AList.delete B xs = filter (\<lambda>e. fst e \<noteq> B) xs" for xs :: "(string \<times> 'a) list"
    by (induction xs) auto
  have "filter (\<lambda>e. fst e \<noteq> B) (sort_key (\<lambda>e. digits_value (fst e)) (filter (\<lambda>e. is_array_index (fst e)) ns)) =
      sort_key (\<lambda>e. digits_value (fst e)) (filter (\<lambda>e. is_array_index (fst e)) (filter (\<lambda>e. fst e \<noteq> B) ns))"
    by (metis filter_sort c)
  moreover have "filter (\<lambda>e. fst e \<noteq> B) (filter (\<lambda>e. \<not> is_array_index (fst e)) ns) =
      filter (\<lambda>e. \<not> is_array_index (fst e)) (filter (\<lambda>e. fst e \<noteq> B) ns)"
    by (rule c)
  ultimately show ?thesis
    unfolding d Object_entries_def filter_append by simp
qed

lemma routeRequest_delete:
  assumes "new_URL P u = Some urlObj" and "\<not> str_includes (hostname urlObj) B"
  shows "fst (routeRequest P u m init st) =
     fst (routeRequest P u m init (st\<lparr>namespaces := AList.delete B (namespaces st)\<rparr>))"
proof -
  have "scanNamespaces P m urlObj q b (Object_entries (namespaces st)) =
      scanNamespaces P m urlObj q b (Object_entries (AList.delete B (namespaces st)))" for q b
    using scanNamespaces_delete [OF assms(2), of P m q b "Object_entries (namespaces st)"]
    by (simp add: Object_entries_delete)
  then show ?thesis
    unfolding routeRequest_fst assms(1) by simp
qed

text \<open>
  Claim C3, amended. A namespace takes part in a request exactly when the request's host
  contains its name. For a request whose host does not contain the name \<open>B\<close>: the
  result is the one obtained with \<open>B\<close> removed from the registry, whatever routes \<open>B\<close>
  holds, so no route of \<open>B\<close> is selected; and creating \<open>B\<close> or adding a route to \<open>B\<close>
  does not change the result.
\<close>

theorem namespace_outside_host_is_invisible:
  assumes "new_URL P u = Some urlObj" and "\<not> str_includes (hostname urlObj) B"
  shows "fst (routeRequest P u m init (st\<lparr>namespaces := AList.update B routes (namespaces st)\<rparr>)) =
         fst (routeRequest P u m init (st\<lparr>namespaces := AList.delete B (namespaces st)\<rparr>)) \<and>
     fst (routeRequest P u m init st) =
         fst (routeRequest P u m init (st\<lparr>namespaces := AList.delete B (namespaces st)\<rparr>)) \<and>
     fst (routeRequest P u m init (namespace B st)) = fst (routeRequest P u m init st) \<and>
     (\<forall>st'. addRoute B meth path h eq eb st = Inr st' \<longrightarrow>
        fst (routeRequest P u m init st') = fst (routeRequest P u m init st) \<and>
        (input_url input = u \<longrightarrow>
           fst (mock_fetch P input init st') = fst (mock_fetch P input init st)))"
proof -
  let ?del = "st\<lparr>namespaces := AList.delete B (namespaces st)\<rparr>"
  have upd: "fst (routeRequest P u m init (st\<lparr>namespaces := AList.update B rs (namespaces st)\<rparr>)) =
         fst (routeRequest P u m init ?del)" for rs m init
    using routeRequest_delete [OF assms, of m init "st\<lparr>namespaces := AList.update B rs (namespaces st)\<rparr>"]
    by (simp add: AList.delete_update_same)
  have same: "fst (routeRequest P u m init st) = fst (routeRequest P u m init ?del)" for m init
    by (rule routeRequest_delete [OF assms])
  have cr: "fst (routeRequest P u m init (namespace B st)) = fst (routeRequest P u m init st)"
  proof (cases "map_of (namespaces st) B = None \<and> B \<notin> set Object_prototype_keys")
    case True
    then have "fst (routeRequest P u m init (namespace B st)) =
        fst (routeRequest P u m init (st\<lparr>namespaces := AList.update B [] (namespaces st)\<rparr>))"
      by (intro routeRequest_result_cong) (simp add: namespace_def logger_def)
    then show ?thesis by (simp add: upd same)
  next
    case False
    then show ?thesis by (auto simp: namespace_def)
  qed
  have add: "fst (routeRequest P u m init st') = fst (routeRequest P u m init st)"
    if "addRoute B meth path h eq eb st = Inr st'" for st' m init
  proof (cases "map_of (namespaces st) B")
    case None
    with that show ?thesis by (simp add: addRoute_def)
  next
    case (Some rs)
    show ?thesis
    proof (cases "routeKey_of meth path \<in> fst ` set rs")
      case True
      with Some that have "namespaces st' = namespaces st"
        by (auto simp: addRoute_def logger_def)
      then show ?thesis by (rule routeRequest_result_cong)
    next
      case False
      with Some that obtain rs' where "namespaces st' = AList.update B rs' (namespaces st)"
        by (auto simp: addRoute_def logger_def)
      then have "fst (routeRequest P u m init st') =
          fst (routeRequest P u m init (st\<lparr>namespaces := AList.update B rs' (namespaces st)\<rparr>))"
        by (intro routeRequest_result_cong) simp
      then show ?thesis by (simp add: upd same)
    qed
  qed
  have mf: "fst (mock_fetch P input init st') = fst (mock_fetch P input init st)"
    if "addRoute B meth path h eq eb st = Inr st'" "input_url input = u" for st'
    using add [OF that(1), of "request_method init" init] that(2)
    by (simp add: mock_fetch_result)
  from upd [where rs = routes and m = m and init = init] same [where m = m and init = init]
    cr add mf show ?thesis by blast
qed

text \<open>Adding \<^verbatim>\<open>GET /orders\<close> to namespace \<open>example\<close> leaves the answer to a request for
  the host \<open>api.com\<close> as it was.\<close>

lemma two_namespaces_built: "namespace ''example'' api_registered = two_namespaces"
  by (simp add: namespace_def api_registered_def two_namespaces_def logger_def
      Object_prototype_keys_def)

theorem namespace_outside_host_witness:
  "sample_new_URL ''https://api.com/users'' =
     Some \<lparr>hostname = ''api.com'', pathname = ''/users'', searchParams = []\<rparr> \<and>
   \<not> str_includes ''api.com'' ''example'' \<and>
   ns_get ''example'' ''/orders'' other_handler None None two_namespaces = Inr two_namespaces_orders \<and>
   fst (mock_fetch sample_platform (UrlString ''https://api.com/users'') no_options two_namespaces_orders)
     = Inr users_response \<and>
   fst (mock_fetch sample_platform (UrlString ''https://api.com/users'') no_options two_namespaces)
     = Inr users_response"
proof -
  have 1: "new_URL sample_platform ''https://api.com/users'' =
     Some \<lparr>hostname = ''api.com'', pathname = ''/users'', searchParams = []\<rparr>"
    by code_simp
  have 2: "\<not> str_includes (hostname \<lparr>hostname = ''api.com'', pathname = ''/users'', searchParams = []\<rparr>) ''example''"
    by code_simp
  have 3: "addRoute ''example'' ''GET'' ''/orders'' other_handler None None two_namespaces = Inr two_namespaces_orders"
    by (simp add: addRoute_def two_namespaces_def two_namespaces_orders_def api_registered_def
        routeKey_of_def logger_def)
  have 4: "input_url (UrlString ''https://api.com/users'') = ''https://api.com/users''"
    by (simp add: input_url_def)
  have 5: "fst (mock_fetch sample_platform (UrlString ''https://api.com/users'') no_options two_namespaces)
     = Inr users_response"
    by code_simp
  from namespace_outside_host_is_invisible [where m = "''GET''" and init = no_options
      and st = two_namespaces and routes = "[]" and meth = "''GET''" and path = "''/orders''"
      and h = other_handler and eq = None and eb = None
      and input = "UrlString ''https://api.com/users''", OF 1 2] 3 4
  have 6: "fst (mock_fetch sample_platform (UrlString ''https://api.com/users'') no_options two_namespaces_orders) =
       fst (mock_fetch sample_platform (UrlString ''https://api.com/users'') no_options two_namespaces)"
    by blast
  have 7: "sample_new_URL ''https://api.com/users'' =
     Some \<lparr>hostname = ''api.com'', pathname = ''/users'', searchParams = []\<rparr>"
    by code_simp
  have 8: "\<not> str_includes ''api.com'' ''example''"
    by code_simp
  from 3 have 9: "ns_get ''example'' ''/orders'' other_handler None None two_namespaces = Inr two_namespaces_orders"
    by (simp only: ns_get_def)
  from 5 6 7 8 9 show ?thesis by simp
qed

text \<open>
  Claim C3 as stated fails: the host \<open>api.example.com\<close> contains the names of both
  namespaces \<open>api\<close> and \<open>example\<close>. The request for \<^verbatim>\<open>/orders\<close> on that host is not found
  while only \<open>api\<close> has routes, and is answered by the route of \<open>example\<close> once
  \<^verbatim>\<open>GET /orders\<close> is added there.
\<close>

theorem namespaces_share_host_counterexample:
  "''api'' \<noteq> ''example'' \<and>
   map_option hostname (sample_new_URL ''https://api.example.com/orders'') = Some ''api.example.com'' \<and>
   str_includes ''api.example.com'' ''api'' \<and>
   ns_get ''example'' ''/orders'' other_handler None None two_namespaces = Inr two_namespaces_orders \<and>
   fst (mock_fetch sample_platform (UrlString ''https://api.example.com/orders'') no_options two_namespaces)
     = Inr not_found \<and>
   fst (mock_fetch sample_platform (UrlString ''https://api.example.com/orders'') no_options two_namespaces_orders)
     = Inr other_response \<and>
   other_response \<noteq> not_found"
proof -
  have 3: "ns_get ''example'' ''/orders'' other_handler None None two_namespaces = Inr two_namespaces_orders"
    by (simp add: ns_get_def addRoute_def two_namespaces_def two_namespaces_orders_def api_registered_def
        routeKey_of_def logger_def)
  have 4: "''api'' \<noteq> ''example'' \<and>
   map_option hostname (sample_new_URL ''https://api.example.com/orders'') = Some ''api.example.com'' \<and>
   str_includes ''api.example.com'' ''api''"
    by code_simp
  have 5: "fst (mock_fetch sample_platform (UrlString ''https://api.example.com/orders'') no_options two_namespaces)
     = Inr not_found"
    by code_simp
  have 6: "fst (mock_fetch sample_platform (UrlString ''https://api.example.com/orders'') no_options two_namespaces_orders)
     = Inr other_response"
    by code_simp
  have 7: "other_response \<noteq> not_found"
    by (simp add: other_response_def not_found_def)
  from 3 4 5 6 7 show ?thesis by simp
qed

subsection \<open>First match\<close>

lemma split_on_no_separator:
  "c \<notin> set s \<Longrightarrow> split_on c s = [s]"
  by (induction s) auto

lemma split_on_first_word:
  "c \<notin> set m \<Longrightarrow> split_on c (m @ c # p) = m # split_on c p"
  by (induction m) auto

text \<open>When the registered method and path hold no space, they are the two words that
  \<^verbatim>\<open>routeRequest\<close> reads from the key.\<close>

lemma split_routeKey:
  assumes "CHR '' '' \<notin> set m" and "CHR '' '' \<notin> set p"
  shows "split_on CHR '' '' (routeKey_of m p) = [m, p]"
  using assms by (simp add: routeKey_of_def split_on_first_word split_on_no_separator)









lemma broken_pattern_built:
  "(case ns_get ''api'' ''/('' other_handler None None (namespace ''api'' constructor) of
      Inl e \<Rightarrow> Inl e
    | Inr s \<Rightarrow> ns_get ''api'' ''/users'' users_handler None None s) = Inr broken_pattern"
  by (simp add: ns_get_def addRoute_def namespace_def constructor_def logger_def
      Object_prototype_keys_def routeKey_of_def broken_pattern_def)



subsection \<open>The path matcher\<close>

lemma split_on_nonempty: "split_on c s \<noteq> []"
  by (induction s) (auto split: list.splits)

lemma join_slash_Cons: "join_slash ((x # y) # ys) = x # join_slash (y # ys)"
  by (cases ys) simp_all

lemma join_split: "join_slash (split_on CHR ''/'' s) = s"
proof (induction s)
  case Nil
  then show ?case by simp
next
  case (Cons x xs)
  show ?case
  proof (cases "x = CHR ''/''")
    case True
    obtain y ys where "split_on CHR ''/'' xs = y # ys"
      using split_on_nonempty [of "CHR ''/''" xs] by (cases "split_on CHR ''/'' xs") auto
    with Cons True show ?thesis by simp
  next
    case False
    obtain y ys where "split_on CHR ''/'' xs = y # ys"
      using split_on_nonempty [of "CHR ''/''" xs] by (cases "split_on CHR ''/'' xs") auto
    with Cons False show ?thesis by (simp add: join_slash_Cons)
  qed
qed

lemma split_on_free: "t \<in> set (split_on c s) \<Longrightarrow> c \<notin> set t"
  by (induction s arbitrary: t) (auto split: if_splits list.splits)

lemma split_join:
  assumes "ss \<noteq> []" and "\<forall>t \<in> set ss. CHR ''/'' \<notin> set t"
  shows "split_on CHR ''/'' (join_slash ss) = ss"
  using assms
proof (induction ss rule: join_slash.induct)
  case 1
  then show ?case by simp
next
  case (2 s)
  then show ?case by (simp add: split_on_no_separator)
next
  case (3 s t ts)
  then show ?case by (simp add: split_on_first_word)
qed

lemma replace_params_literal:
  assumes "CHR '':'' \<notin> set l"
  shows "replace_params (l @ rest) = (case replace_params rest of (r, ns) \<Rightarrow> (l @ r, ns))"
  using assms by (induction l) (auto split: prod.splits)

lemma takeWhile_segment:
  assumes "CHR ''/'' \<notin> set name" and "rest = [] \<or> (\<exists>r. rest = CHR ''/'' # r)"
  shows "takeWhile (\<lambda>x. x \<noteq> CHR ''/'') (name @ rest) = name"
    and "dropWhile (\<lambda>x. x \<noteq> CHR ''/'') (name @ rest) = rest"
  using assms by (induction name) auto

lemma replace_params_param:
  assumes "name \<noteq> []" and "CHR ''/'' \<notin> set name" and "rest = [] \<or> (\<exists>r. rest = CHR ''/'' # r)"
  shows "replace_params (CHR '':'' # name @ rest) =
     (case replace_params rest of (r, ns) \<Rightarrow> (''([^/]+)'' @ r, name # ns))"
  using assms by (simp add: takeWhile_segment split: prod.splits)

lemma replace_params_seg:
  assumes "is_param_seg s \<or> is_literal_seg s" and "CHR ''/'' \<notin> set s"
      and "rest = [] \<or> (\<exists>r. rest = CHR ''/'' # r)"
  shows "replace_params (s @ rest) =
     (case replace_params rest of (r, ns) \<Rightarrow> (seg_source s @ r, param_names [s] @ ns))"
proof (cases "is_param_seg s")
  case True
  then obtain name where s: "s = CHR '':'' # name" "name \<noteq> []"
    by (auto simp: is_param_seg_def split: list.splits)
  with assms(2) have "CHR ''/'' \<notin> set name" by simp
  from replace_params_param [OF s(2) this assms(3)] True s show ?thesis
    by (simp add: seg_source_def param_names_def split: prod.splits)
next
  case False
  with assms(1) have "is_literal_seg s" by simp
  then have "CHR '':'' \<notin> set s" by (auto simp: is_literal_seg_def)
  from replace_params_literal [OF this] False show ?thesis
    by (simp add: seg_source_def param_names_def split: prod.splits)
qed

lemma replace_params_join:
  assumes "\<forall>s \<in> set segs. (is_param_seg s \<or> is_literal_seg s) \<and> CHR ''/'' \<notin> set s"
  shows "replace_params (join_slash segs) = (join_slash (map seg_source segs), param_names segs)"
  using assms
proof (induction segs rule: join_slash.induct)
  case 1
  then show ?case by (simp add: param_names_def)
next
  case (2 s)
  with replace_params_seg [of s "[]"] show ?case by simp
next
  case (3 s t ts)
  have "replace_params (s @ CHR ''/'' # join_slash (t # ts)) =
     (case replace_params (CHR ''/'' # join_slash (t # ts)) of
        (r, ns) \<Rightarrow> (seg_source s @ r, param_names [s] @ ns))"
    using 3(2) by (intro replace_params_seg) simp_all
  moreover have "replace_params (CHR ''/'' # join_slash (t # ts)) =
     (CHR ''/'' # join_slash (map seg_source (t # ts)), param_names (t # ts))"
    using 3 by (simp split: prod.splits)
  ultimately show ?case
    by (simp add: param_names_def)
qed

lemma rx_tokens_literal:
  assumes "\<forall>c \<in> set l. c \<notin> set rx_meta"
  shows "rx_tokens (l @ rest) = map_option ((@) (map Lit l)) (rx_tokens rest)"
  using assms
proof (induction l)
  case Nil
  then show ?case by (simp add: option.map_ident)
next
  case (Cons c l)
  then have c: "c \<noteq> CHR ''('' \<and> c \<noteq> CHR ''.'' \<and> c \<notin> set rx_meta"
    by (auto simp: rx_meta_def)
  then have "\<not> startsWith (c # l @ rest) ''([^/]+)''" by simp
  with c Cons show ?case
    by (simp add: option.map_comp comp_def)
qed

lemma rx_tokens_group:
  "rx_tokens (''([^/]+)'' @ rest) = map_option (Cons Group) (rx_tokens rest)"
  by simp

lemma rx_tokens_slash:
  "rx_tokens (CHR ''/'' # rest) = map_option (Cons (Lit CHR ''/'')) (rx_tokens rest)"
  by (simp add: rx_meta_def)

lemma rx_tokens_seg:
  assumes "is_param_seg s \<or> is_literal_seg s"
  shows "rx_tokens (seg_source s @ rest) = map_option ((@) (seg_toks s)) (rx_tokens rest)"
proof (cases "is_param_seg s")
  case True
  have "(@) [Group] = (#) Group" by auto
  with True show ?thesis
    using rx_tokens_group [of rest] by (simp add: seg_source_def seg_toks_def del: rx_tokens.simps)
next
  case False
  with assms have "\<forall>c \<in> set s. c \<notin> set rx_meta" by (auto simp: is_literal_seg_def)
  from rx_tokens_literal [OF this] False show ?thesis
    by (simp add: seg_source_def seg_toks_def)
qed

lemma rx_tokens_join:
  assumes "\<forall>s \<in> set segs. is_param_seg s \<or> is_literal_seg s"
  shows "rx_tokens (join_slash (map seg_source segs)) = Some (segs_toks segs)"
  using assms
proof (induction segs rule: join_slash.induct)
  case 1
  then show ?case by simp
next
  case (2 s)
  with rx_tokens_seg [of s "[]"] show ?case by simp
next
  case (3 s t ts)
  from 3 have ih: "rx_tokens (join_slash (map seg_source (t # ts))) = Some (segs_toks (t # ts))"
    by simp
  have "rx_tokens (seg_source s @ CHR ''/'' # join_slash (map seg_source (t # ts))) =
      map_option ((@) (seg_toks s)) (rx_tokens (CHR ''/'' # join_slash (map seg_source (t # ts))))"
    using 3(2) by (intro rx_tokens_seg) simp
  then show ?case
    using ih by (simp add: rx_tokens_slash del: rx_tokens.simps)
qed

lemma rx_match_lits:
  assumes "rx_match (map Lit l @ k) path = Some caps"
  shows "\<exists>rest. path = l @ rest \<and> rx_match k rest = Some caps"
  using assms by (induction l arbitrary: path) (auto split: list.splits if_splits)

lemma first_some_Some: "first_some xs = Some y \<Longrightarrow> Some y \<in> set xs"
  by (induction xs rule: first_some.induct) auto

lemma rx_match_group:
  assumes "rx_match (Group # k) path = Some caps"
  shows "\<exists>n cs. 1 \<le> n \<and> n \<le> length (takeWhile (\<lambda>x. x \<noteq> CHR ''/'') path) \<and>
     rx_match k (drop n path) = Some cs \<and> caps = take n path # cs"
proof -
  let ?L = "length (takeWhile (\<lambda>x. x \<noteq> CHR ''/'') path)"
  let ?f = "\<lambda>n. map_option (Cons (take n path)) (rx_match k (drop n path))"
  from assms have "Some caps \<in> set (map ?f (rev [1..<Suc ?L]))"
    by (intro first_some_Some) simp
  then obtain n where a: "n \<in> set (rev [1..<Suc ?L])" and b: "Some caps = ?f n"
    unfolding set_map by blast
  from a have "1 \<le> n" "n \<le> ?L" by auto
  moreover from b obtain cs where "rx_match k (drop n path) = Some cs" "caps = take n path # cs"
    by (cases "rx_match k (drop n path)") auto
  ultimately show ?thesis by blast
qed

lemma take_within_takeWhile:
  assumes "n \<le> length (takeWhile Q xs)"
  shows "\<forall>x \<in> set (take n xs). Q x"
proof -
  have "take n xs = take n (takeWhile Q xs @ dropWhile Q xs)" by simp
  also have "\<dots> = take n (takeWhile Q xs)" using assms by (simp del: takeWhile_dropWhile_id)
  finally have "set (take n xs) \<subseteq> set (takeWhile Q xs)" by (simp add: set_take_subset)
  then show ?thesis by (auto dest: set_takeWhileD)
qed

lemma rx_match_group_end:
  assumes "rx_match [Group] path = Some caps"
  shows "path \<noteq> [] \<and> CHR ''/'' \<notin> set path \<and> caps = [path]"
proof -
  from rx_match_group [OF assms] obtain n cs where
    n: "1 \<le> n" "n \<le> length (takeWhile (\<lambda>x. x \<noteq> CHR ''/'') path)"
    and m: "rx_match [] (drop n path) = Some cs" and c: "caps = take n path # cs"
    by blast
  from m have d: "drop n path = []" "cs = []" by (auto split: if_splits)
  then have t: "take n path = path" by simp
  from take_within_takeWhile [OF n(2)] t have "CHR ''/'' \<notin> set path" by auto
  moreover from n have "path \<noteq> []" by auto
  ultimately show ?thesis using c d t by simp
qed

lemma rx_match_group_slash:
  assumes "rx_match (Group # Lit CHR ''/'' # k) path = Some caps"
  shows "\<exists>t rest cs. path = t @ CHR ''/'' # rest \<and> t \<noteq> [] \<and> CHR ''/'' \<notin> set t \<and>
     rx_match k rest = Some cs \<and> caps = t # cs"
proof -
  from rx_match_group [OF assms] obtain n cs where
    n: "1 \<le> n" "n \<le> length (takeWhile (\<lambda>x. x \<noteq> CHR ''/'') path)"
    and m: "rx_match (Lit CHR ''/'' # k) (drop n path) = Some cs" and c: "caps = take n path # cs"
    by blast
  from m obtain rest where d: "drop n path = CHR ''/'' # rest" "rx_match k rest = Some cs"
    by (auto split: list.splits if_splits)
  have p: "path = take n path @ CHR ''/'' # rest"
    using d(1) by (metis append_take_drop_id)
  from take_within_takeWhile [OF n(2)] have f: "CHR ''/'' \<notin> set (take n path)" by auto
  from n have "take n path \<noteq> []" by auto
  with p f d(2) c show ?thesis by blast
qed

lemma rx_match_segments:
  assumes "segs \<noteq> []"
      and "\<forall>s \<in> set segs. (is_param_seg s \<or> is_literal_seg s) \<and> CHR ''/'' \<notin> set s"
      and "rx_match (segs_toks segs) path = Some caps"
  shows "\<exists>ts. path = join_slash ts \<and>
     list_all2 (\<lambda>s t. CHR ''/'' \<notin> set t \<and> (\<not> is_param_seg s \<longrightarrow> t = s)) segs ts \<and>
     caps = map snd (filter (\<lambda>p. is_param_seg (fst p)) (zip segs ts))"
  using assms
proof (induction segs arbitrary: path caps rule: join_slash.induct)
  case 1
  then show ?case by simp
next
  case (2 s)
  show ?case
  proof (cases "is_param_seg s")
    case True
    with 2 have "rx_match [Group] path = Some caps" by (simp add: seg_toks_def)
    from rx_match_group_end [OF this] True show ?thesis
      by (intro exI [of _ "[path]"]) simp
  next
    case False
    with 2 have "rx_match (map Lit s @ []) path = Some caps" by (simp add: seg_toks_def)
    from rx_match_lits [OF this] have "path = s" "caps = []"
      by (auto split: if_splits)
    with False 2 show ?thesis
      by (intro exI [of _ "[s]"]) simp
  qed
next
  case (3 s t ts)
  have valid: "\<forall>x \<in> set (t # ts). (is_param_seg x \<or> is_literal_seg x) \<and> CHR ''/'' \<notin> set x"
    using 3(3) by simp
  have step: "\<exists>t0 rest cs. path = t0 @ CHR ''/'' # rest \<and> CHR ''/'' \<notin> set t0 \<and>
      (\<not> is_param_seg s \<longrightarrow> t0 = s) \<and> rx_match (segs_toks (t # ts)) rest = Some cs \<and>
      caps = (if is_param_seg s then t0 # cs else cs)"
  proof (cases "is_param_seg s")
    case True
    with 3(4) have "rx_match (Group # Lit CHR ''/'' # segs_toks (t # ts)) path = Some caps"
      by (simp add: seg_toks_def)
    from rx_match_group_slash [OF this] True show ?thesis by auto
  next
    case False
    with 3(4) have "rx_match (map Lit s @ Lit CHR ''/'' # segs_toks (t # ts)) path = Some caps"
      by (simp add: seg_toks_def)
    from rx_match_lits [OF this] obtain rest' where
      r: "path = s @ rest'" "rx_match (Lit CHR ''/'' # segs_toks (t # ts)) rest' = Some caps"
      by blast
    from r(2) obtain rest where "rest' = CHR ''/'' # rest" "rx_match (segs_toks (t # ts)) rest = Some caps"
      by (auto split: list.splits if_splits)
    with r(1) False 3(3) show ?thesis by auto
  qed
  then obtain t0 rest cs where
    p: "path = t0 @ CHR ''/'' # rest" "CHR ''/'' \<notin> set t0" "\<not> is_param_seg s \<longrightarrow> t0 = s"
       "rx_match (segs_toks (t # ts)) rest = Some cs"
       "caps = (if is_param_seg s then t0 # cs else cs)"
    by blast
  from "3.IH" [OF _ valid p(4)] obtain ts1 where
    ih: "rest = join_slash ts1"
        "list_all2 (\<lambda>s t. CHR ''/'' \<notin> set t \<and> (\<not> is_param_seg s \<longrightarrow> t = s)) (t # ts) ts1"
        "cs = map snd (filter (\<lambda>p. is_param_seg (fst p)) (zip (t # ts) ts1))"
    by auto
  from ih(2) obtain a as where ts1: "ts1 = a # as"
    by (cases ts1) auto
  have "path = join_slash (t0 # ts1)"
    using p(1) ih(1) ts1 by simp
  moreover have "list_all2 (\<lambda>s t. CHR ''/'' \<notin> set t \<and> (\<not> is_param_seg s \<longrightarrow> t = s)) (s # t # ts) (t0 # ts1)"
    using ih(2) p(2,3) by simp
  moreover have "caps = map snd (filter (\<lambda>p. is_param_seg (fst p)) (zip (s # t # ts) (t0 # ts1)))"
    using p(5) ih(3) by simp
  ultimately show ?case by blast
qed

lemma reduce_params_other:
  assumes "k \<notin> set names"
  shows "map_of (reduce_params acc names caps) k = map_of acc k"
  using assms
  by (induction names arbitrary: acc caps) (auto simp: set_prop_def AList.update_conv')

lemma reduce_params_binds:
  assumes "distinct names" and "''__proto__'' \<notin> set names" and "(n, c) \<in> set (zip names caps)"
  shows "map_of (reduce_params acc names caps) n = Some c"
  using assms
proof (induction names arbitrary: acc caps)
  case Nil
  then show ?case by simp
next
  case (Cons x names)
  from Cons.prems(3) obtain y caps' where caps: "caps = y # caps'"
    by (cases caps) auto
  show ?case
  proof (cases "(n, c) = (x, y)")
    case True
    with Cons.prems caps have "n \<notin> set names" "n \<noteq> ''__proto__''" by auto
    with True caps show ?thesis
      by (simp add: reduce_params_other set_prop_def AList.update_conv')
  next
    case False
    with Cons.prems(3) caps have "(n, c) \<in> set (zip names caps')" by auto
    with Cons.IH Cons.prems(1,2) caps show ?thesis by simp
  qed
qed

lemma filter_zip_fst:
  assumes "length xs = length ys"
  shows "map fst (filter (\<lambda>p. Q (fst p)) (zip xs ys)) = filter Q xs"
  using assms by (induction xs ys rule: list_induct2) auto

lemma matchPath_simple:
  assumes "simple_pattern routePath"
  shows "matchPath P urlPath routePath =
     Inr (map_option (\<lambda>caps. reduce_params [] (param_names (split_on CHR ''/'' routePath)) (map JStr caps))
            (rx_match (segs_toks (split_on CHR ''/'' routePath)) urlPath))"
proof -
  let ?segs = "split_on CHR ''/'' routePath"
  have v: "\<forall>s \<in> set ?segs. (is_param_seg s \<or> is_literal_seg s) \<and> CHR ''/'' \<notin> set s"
    using assms by (auto simp: simple_pattern_def dest: split_on_free)
  have "replace_params (join_slash ?segs) = (join_slash (map seg_source ?segs), param_names ?segs)"
    using v by (rule replace_params_join)
  then have rp: "replace_params routePath = (join_slash (map seg_source ?segs), param_names ?segs)"
    by (simp only: join_split)
  have tk: "rx_tokens (join_slash (map seg_source ?segs)) = Some (segs_toks ?segs)"
    using v by (intro rx_tokens_join) blast
  show ?thesis
    by (cases "rx_match (segs_toks ?segs) urlPath") (simp_all add: matchPath_def RegExp_exec_def rp tk)
qed

text \<open>
  Claim C4, amended. For a simple pattern (every segment a parameter \<open>:name\<close> or literal
  text without colon and without metacharacter of regular expressions) whose parameter
  names are distinct and not \<^verbatim>\<open>__proto__\<close>: when the Path Matcher matches a path, the
  path has as many segments as the pattern, every literal segment is equal, and every
  parameter is bound to the string of its segment. The pattern \<^verbatim>\<open>/users/:id\<close> matches
  \<^verbatim>\<open>/users/123\<close> with \<open>id\<close> bound to the string \<open>123\<close> and does not match
  \<^verbatim>\<open>/users/123/extra\<close>, on every platform.
\<close>

theorem matchPath_exact_on_segments:
  assumes "simple_pattern routePath"
      and "distinct (param_names (split_on CHR ''/'' routePath))"
      and "''__proto__'' \<notin> set (param_names (split_on CHR ''/'' routePath))"
      and "matchPath P urlPath routePath = Inr (Some ps)"
  shows "length (split_on CHR ''/'' urlPath) = length (split_on CHR ''/'' routePath) \<and>
     (\<forall>i < length (split_on CHR ''/'' routePath).
        (if is_param_seg (split_on CHR ''/'' routePath ! i)
         then map_of ps (drop 1 (split_on CHR ''/'' routePath ! i)) =
                Some (JStr (split_on CHR ''/'' urlPath ! i))
         else split_on CHR ''/'' urlPath ! i = split_on CHR ''/'' routePath ! i)) \<and>
     matchPath P ''/users/123'' ''/users/:id'' = Inr (Some [(''id'', JStr ''123'')]) \<and>
     matchPath P ''/users/123/extra'' ''/users/:id'' = Inr None"
proof -
  let ?segs = "split_on CHR ''/'' routePath"
  let ?names = "param_names ?segs"
  have ne: "?segs \<noteq> []" by (rule split_on_nonempty)
  have v: "\<forall>s \<in> set ?segs. (is_param_seg s \<or> is_literal_seg s) \<and> CHR ''/'' \<notin> set s"
    using assms(1) by (auto simp: simple_pattern_def dest: split_on_free)
  from assms(4) matchPath_simple [OF assms(1), of P urlPath]
  obtain caps where m: "rx_match (segs_toks ?segs) urlPath = Some caps"
    and ps: "ps = reduce_params [] ?names (map JStr caps)"
    by (cases "rx_match (segs_toks ?segs) urlPath") auto
  from rx_match_segments [OF ne v m] obtain ts where
    u: "urlPath = join_slash ts"
    and l2: "list_all2 (\<lambda>s t. CHR ''/'' \<notin> set t \<and> (\<not> is_param_seg s \<longrightarrow> t = s)) ?segs ts"
    and caps: "caps = map snd (filter (\<lambda>p. is_param_seg (fst p)) (zip ?segs ts))"
    by blast
  from l2 have len: "length ?segs = length ts" by (rule list_all2_lengthD)
  with ne have tne: "ts \<noteq> []" by auto
  from l2 have free: "\<forall>t \<in> set ts. CHR ''/'' \<notin> set t"
    by (auto simp: list_all2_conv_all_nth in_set_conv_nth)
  have sp: "split_on CHR ''/'' urlPath = ts"
    unfolding u using tne free by (rule split_join)
  let ?pairs = "filter (\<lambda>p. is_param_seg (fst p)) (zip ?segs ts)"
  have names: "?names = map (\<lambda>p. drop 1 (fst p)) ?pairs"
    using filter_zip_fst [OF len, of is_param_seg, symmetric]
    by (simp add: param_names_def comp_def)
  have z: "zip ?names (map JStr caps) = map (\<lambda>p. (drop 1 (fst p), JStr (snd p))) ?pairs"
    unfolding names caps by (simp add: zip_map_map zip_same_conv_map comp_def)
  have seg: "(if is_param_seg (?segs ! i)
         then map_of ps (drop 1 (?segs ! i)) = Some (JStr (ts ! i))
         else ts ! i = ?segs ! i)" if i: "i < length ?segs" for i
  proof (cases "is_param_seg (?segs ! i)")
    case True
    from i len have "(?segs ! i, ts ! i) \<in> set (zip ?segs ts)"
      by (auto simp: in_set_zip)
    with True have "(?segs ! i, ts ! i) \<in> set ?pairs" by simp
    then have "(drop 1 (?segs ! i), JStr (ts ! i)) \<in> set (zip ?names (map JStr caps))"
      unfolding z by force
    from reduce_params_binds [OF assms(2) assms(3) this, of "[]"] True show ?thesis
      by (simp add: ps)
  next
    case False
    with list_all2_nthD [OF l2 i] show ?thesis by simp
  qed
  have e1: "matchPath P ''/users/123'' ''/users/:id'' = Inr (Some [(''id'', JStr ''123'')])"
    by code_simp
  have e2: "matchPath P ''/users/123/extra'' ''/users/:id'' = Inr None"
    by code_simp
  from len have a: "length ts = length ?segs" by simp
  from seg have b: "\<forall>i < length ?segs.
        (if is_param_seg (?segs ! i)
         then map_of ps (drop 1 (?segs ! i)) = Some (JStr (ts ! i))
         else ts ! i = ?segs ! i)"
    by blast
  from a b e1 e2 show ?thesis
    unfolding sp by (intro conjI)
qed

text \<open>The pattern \<^verbatim>\<open>/users/:id/update\<close> against \<^verbatim>\<open>/users/123/update\<close>.\<close>

theorem matchPath_exact_witness:
  "simple_pattern ''/users/:id/update'' \<and>
   distinct (param_names (split_on CHR ''/'' ''/users/:id/update'')) \<and>
   ''__proto__'' \<notin> set (param_names (split_on CHR ''/'' ''/users/:id/update'')) \<and>
   matchPath sample_platform ''/users/123/update'' ''/users/:id/update'' = Inr (Some [(''id'', JStr ''123'')]) \<and>
   length (split_on CHR ''/'' ''/users/123/update'') = 4 \<and>
   split_on CHR ''/'' ''/users/123/update'' ! 2 = ''123''"
proof -
  have 1: "simple_pattern ''/users/:id/update''" by code_simp
  have 2: "distinct (param_names (split_on CHR ''/'' ''/users/:id/update''))" by code_simp
  have 3: "''__proto__'' \<notin> set (param_names (split_on CHR ''/'' ''/users/:id/update''))" by code_simp
  have 4: "matchPath sample_platform ''/users/123/update'' ''/users/:id/update'' =
      Inr (Some [(''id'', JStr ''123'')])" by code_simp
  have 5: "length (split_on CHR ''/'' ''/users/:id/update'') = 4" by code_simp
  have 6: "split_on CHR ''/'' ''/users/123/update'' ! 2 = ''123''" by code_simp
  from matchPath_exact_on_segments [OF 1 2 3 4] 5
  have "length (split_on CHR ''/'' ''/users/123/update'') = 4" by simp
  with 1 2 3 4 6 show ?thesis by blast
qed

text \<open>
  Claim C4 as stated fails: the pattern is compiled as a regular expression, so the
  literal segment \<^verbatim>\<open>users.json\<close> matches the different segment \<^verbatim>\<open>usersXjson\<close>; and a
  colon inside a segment starts a parameter, so the segment \<^verbatim>\<open>user-:id\<close>, which does not
  begin with the marker, matches \<^verbatim>\<open>user-7\<close>.
\<close>

theorem matchPath_metacharacter_counterexample:
  "matchPath sample_platform ''/usersXjson'' ''/users.json'' = Inr (Some []) \<and>
   split_on CHR ''/'' ''/usersXjson'' = ['''', ''usersXjson''] \<and>
   split_on CHR ''/'' ''/users.json'' = ['''', ''users.json''] \<and>
   ''usersXjson'' \<noteq> ''users.json'' \<and>
   matchPath sample_platform ''/user-7'' ''/user-:id'' = Inr (Some [(''id'', JStr ''7'')])"
  by code_simp

subsection \<open>Failures that reach the caller\<close>


lemma executeHandler_failure:
  "h ctx = Throws (Thrown msg) \<Longrightarrow>
     executeHandler P h ctx = ([Error_executing_handler msg], Inr server_error)"
  "h ctx = Returns None \<Longrightarrow>
     executeHandler P h ctx = ([Error_executing_handler (destructure_message P)], Inr server_error)"
  by (simp_all add: executeHandler_def handler_catch_def)






end
